theory Spec2Isabelle
  imports Main
begin

section \<open>Python strings\<close>

text \<open>
  A Python \<open>str\<close> is modelled as a \<open>string\<close> whose characters are the code points
  below 256. The functions below are \<open>str.isspace\<close>, \<open>str.strip()\<close>, \<open>str.lower()\<close>,
  \<open>str.split(',')\<close>, \<open>str.startswith\<close> and \<open>sep.join\<close> on that range.
\<close>

definition py_isspace :: "char \<Rightarrow> bool" where
  "py_isspace c = (of_char c \<in> {9, 10, 11, 12, 13, 28, 29, 30, 31, 32, 133, 160 :: nat})"

definition py_strip :: "string \<Rightarrow> string" where
  "py_strip s = rev (dropWhile py_isspace (rev (dropWhile py_isspace s)))"

definition py_isupper :: "char \<Rightarrow> bool" where
  "py_isupper c =
     (let n = (of_char c :: nat)
      in (65 \<le> n \<and> n \<le> 90) \<or> (192 \<le> n \<and> n \<le> 222 \<and> n \<noteq> 215))"

definition py_lower_char :: "char \<Rightarrow> char" where
  "py_lower_char c = (if py_isupper c then char_of (of_char c + (32::nat)) else c)"

definition py_lower :: "string \<Rightarrow> string" where
  "py_lower s = map py_lower_char s"

fun split_on :: "char \<Rightarrow> string \<Rightarrow> string list" where
  "split_on c [] = [[]]"
| "split_on c (x # xs) =
     (if x = c then [] # split_on c xs
      else (case split_on c xs of [] \<Rightarrow> [[x]] | t # ts \<Rightarrow> (x # t) # ts))"

definition startswith :: "string \<Rightarrow> string \<Rightarrow> bool" where
  "startswith s p = (take (length p) s = p)"

fun py_join :: "string \<Rightarrow> string list \<Rightarrow> string" where
  "py_join sep [] = []"
| "py_join sep [x] = x"
| "py_join sep (x # y # ys) = x @ sep @ py_join sep (y # ys)"

text \<open>Truthiness of a value that is \<open>None\<close> or a \<open>str\<close>.\<close>

definition truthy_str :: "string option \<Rightarrow> bool" where
  "truthy_str v = (case v of None \<Rightarrow> False | Some s \<Rightarrow> s \<noteq> [])"

section \<open>Ingredient normalisation\<close>

text \<open>
  The first lines of \<open>get_recipes\<close> and of \<open>get_fallback_recipes\<close>:
  \<^verbatim>\<open>[ing.strip().lower() for ing in ingredients.split(',') if ing.strip()]\<close>
\<close>

definition ingredients_list :: "string \<Rightarrow> string list" where
  "ingredients_list ingredients =
     map (\<lambda>ing. py_lower (py_strip ing))
       (filter (\<lambda>ing. py_strip ing \<noteq> []) (split_on CHR '','' ingredients))"

text \<open>
  The handler \<open>ingredients\<close> drops the entries marked with \<open>#\<close> before it searches:
  \<^verbatim>\<open>[ing.strip() for ing in ingredients_text.split(',')
     if ing.strip() and not ing.strip().startswith('#')]\<close>
  and joins what is left with \<^verbatim>\<open>', '\<close>.
\<close>

definition handler_ingredients_list :: "string \<Rightarrow> string list" where
  "handler_ingredients_list ingredients_text =
     map py_strip
       (filter (\<lambda>ing. py_strip ing \<noteq> [] \<and> \<not> startswith (py_strip ing) ''#'')
          (split_on CHR '','' ingredients_text))"

definition handler_ingredients_text :: "string \<Rightarrow> string" where
  "handler_ingredients_text ingredients_text =
     py_join '', '' (handler_ingredients_list ingredients_text)"

section \<open>JSON values, recipes and exceptions\<close>

datatype json =
    JNull
  | JBool bool
  | JInt int
  | JStr string
  | JList "json list"
  | JObj "(string \<times> json) list"

type_synonym dict = "string \<rightharpoonup> json"

text \<open>\<open>d.get(k)\<close> and \<open>d.get(k, default)\<close>; Python's \<open>None\<close> is \<open>JNull\<close>.\<close>

definition dict_get :: "dict \<Rightarrow> string \<Rightarrow> json" where
  "dict_get d k = (case d k of None \<Rightarrow> JNull | Some v \<Rightarrow> v)"

definition dict_get_default :: "dict \<Rightarrow> string \<Rightarrow> json \<Rightarrow> json" where
  "dict_get_default d k v0 = (case d k of None \<Rightarrow> v0 | Some v \<Rightarrow> v)"

text \<open>
  A recipe is the dict the search endpoints return. Its key \<open>id\<close> is kept apart, at the
  type the service documents for it: an integer, or \<open>None\<close> when the key is missing. All
  the other keys are in \<open>attrs\<close>.
\<close>

record recipe =
  rid :: "int option"
  attrs :: dict

datatype exn =
    RuntimeError string
  | ValueError string
  | TypeError
  | KeyError
  | HTTPError nat string
  | RequestException string

text \<open>
  \<open>str(e)\<close>. \<open>TypeError\<close> and \<open>KeyError\<close> are caught where they arise and never
  formatted.
\<close>

fun exn_str :: "exn \<Rightarrow> string" where
  "exn_str (RuntimeError m) = m"
| "exn_str (ValueError m) = m"
| "exn_str (HTTPError status m) = m"
| "exn_str (RequestException m) = m"
| "exn_str TypeError = []"
| "exn_str KeyError = []"

subsection \<open>The operators the filters use\<close>

text \<open>
  \<open>int(s)\<close> is Python's own: which strings it accepts and the text of its
  \<open>ValueError\<close> are not modelled. Every function that reaches \<open>int(max_time)\<close> takes
  the builtin as its first argument \<open>to_int\<close>, a function from the string to the integer
  or to the exception raised, so what is proved holds whatever \<open>int\<close> does.
\<close>

text \<open>\<open>v > m\<close> for a JSON value \<open>v\<close> and an int \<open>m\<close>; a \<open>bool\<close> is an int in Python.\<close>

fun py_gt :: "json \<Rightarrow> int \<Rightarrow> exn + bool" where
  "py_gt (JInt a) m = Inr (a > m)"
| "py_gt (JBool b) m = Inr ((if b then 1 else 0) > m)"
| "py_gt v m = Inl TypeError"

fun is_substring :: "string \<Rightarrow> string \<Rightarrow> bool" where
  "is_substring x [] = (x = [])"
| "is_substring x (c # cs) = (take (length x) (c # cs) = x \<or> is_substring x cs)"

text \<open>\<open>x in v\<close> for a str \<open>x\<close>.\<close>

fun py_in :: "string \<Rightarrow> json \<Rightarrow> exn + bool" where
  "py_in x (JList vs) = Inr (JStr x \<in> set vs)"
| "py_in x (JStr s) = Inr (is_substring x s)"
| "py_in x (JObj kvs) = Inr (x \<in> fst ` set kvs)"
| "py_in x v = Inl TypeError"

section \<open>The recipe service\<close>

record cs_params =
  includeIngredients :: string
  number :: int
  maxReadyTime :: "int option"
  cs_cuisine :: "string option"
  cs_type :: "string option"
  minIngredients :: "int option"
  maxIngredients :: "int option"

datatype request =
    FindByIngredients string
  | Information int
  | ComplexSearch cs_params

text \<open>
  The world is the list of requests sent so far. The service is any three functions of
  that history and of the request: each either raises what \<open>requests.get\<close>,
  \<open>raise_for_status\<close> or \<open>json\<close> raise, or answers with the parsed body. For
  \<open>complexSearch\<close> the body is a dict whose key \<open>results\<close> may be missing.
\<close>

type_synonym world = "request list"

record spoonacular =
  findByIngredients :: "world \<Rightarrow> string \<Rightarrow> exn + recipe list"
  information :: "world \<Rightarrow> int \<Rightarrow> exn + dict"
  complexSearch :: "world \<Rightarrow> cs_params \<Rightarrow> exn + recipe list option"

definition get_findByIngredients ::
  "spoonacular \<Rightarrow> string \<Rightarrow> world \<Rightarrow> (exn + recipe list) \<times> world" where
  "get_findByIngredients api ingredient w =
     (findByIngredients api w ingredient, w @ [FindByIngredients ingredient])"

definition get_information :: "spoonacular \<Rightarrow> int \<Rightarrow> world \<Rightarrow> (exn + dict) \<times> world" where
  "get_information api i w = (information api w i, w @ [Information i])"

definition get_complexSearch ::
  "spoonacular \<Rightarrow> cs_params \<Rightarrow> world \<Rightarrow> (exn + recipe list option) \<times> world" where
  "get_complexSearch api params w = (complexSearch api w params, w @ [ComplexSearch params])"

section \<open>Aggregation over the per-ingredient searches\<close>

text \<open>
  \<open>all_recipes\<close> is a dict read back in insertion order (\<open>list(all_recipes.values())\<close>),
  so it is an association list that only grows at its end; \<open>ingredient_match_count\<close> is
  only looked up. The same loop stands in \<open>get_recipes\<close> (search type \<open>OR\<close>) and in
  \<open>get_fallback_recipes\<close>.
\<close>

record agg =
  all_recipes :: "(int \<times> recipe) list"
  ingredient_match_count :: "int \<rightharpoonup> nat"

definition agg_empty :: agg where
  "agg_empty = \<lparr>all_recipes = [], ingredient_match_count = Map.empty\<rparr>"

text \<open>
  The inner loop \<open>for recipe in recipes\<close>. \<open>if recipe_id\<close> is false for a missing id
  and for 0. A \<open>KeyError\<close> at \<open>ingredient_match_count[recipe_id] += 1\<close> would leave the
  loop with what has been collected.
\<close>

fun add_recipes :: "recipe list \<Rightarrow> agg \<Rightarrow> agg" where
  "add_recipes [] a = a"
| "add_recipes (recipe # recipes) a =
     (case rid recipe of
        None \<Rightarrow> add_recipes recipes a
      | Some recipe_id \<Rightarrow>
          if recipe_id = 0 then add_recipes recipes a
          else
            (let a1 = (if map_of (all_recipes a) recipe_id = None
                       then a\<lparr>all_recipes := all_recipes a @ [(recipe_id, recipe)],
                              ingredient_match_count := (ingredient_match_count a)(recipe_id \<mapsto> 0)\<rparr>
                       else a)
             in case ingredient_match_count a1 recipe_id of
                  None \<Rightarrow> a1
                | Some c \<Rightarrow>
                    add_recipes recipes
                      (a1\<lparr>ingredient_match_count := (ingredient_match_count a1)(recipe_id \<mapsto> c + 1)\<rparr>)))"

text \<open>The outer loop \<open>for ingredient in ingredients_list\<close>, with its \<open>except: continue\<close>.\<close>

fun collect_matches :: "spoonacular \<Rightarrow> string list \<Rightarrow> agg \<Rightarrow> world \<Rightarrow> agg \<times> world" where
  "collect_matches api [] a w = (a, w)"
| "collect_matches api (ingredient # rest) a w =
     (case get_findByIngredients api ingredient w of
        (Inl e, w1) \<Rightarrow> collect_matches api rest a w1
      | (Inr recipes, w1) \<Rightarrow> collect_matches api rest (add_recipes recipes a) w1)"

text \<open>The sort key \<open>ingredient_match_count.get(r.get("id", 0), 0)\<close>.\<close>

definition match_count_of :: "(int \<rightharpoonup> nat) \<Rightarrow> recipe \<Rightarrow> nat" where
  "match_count_of imc r =
     (case imc (case rid r of None \<Rightarrow> 0 | Some i \<Rightarrow> i) of None \<Rightarrow> 0 | Some c \<Rightarrow> c)"

text \<open>\<open>recipes.sort(key=..., reverse=True)\<close>: stable, the larger key first.\<close>

definition sort_by_match_count :: "(int \<rightharpoonup> nat) \<Rightarrow> recipe list \<Rightarrow> recipe list" where
  "sort_by_match_count imc rs = sort_key (\<lambda>r. - int (match_count_of imc r)) rs"

text \<open>The slice \<open>xs[:n]\<close>; a negative \<open>n\<close> counts from the end.\<close>

definition py_take :: "int \<Rightarrow> 'a list \<Rightarrow> 'a list" where
  "py_take n xs = (if 0 \<le> n then take (nat n) xs else take (nat (int (length xs) + n)) xs)"

section \<open>Detail enrichment\<close>

text \<open>
  The three loops \<open>for recipe in recipes\<close> that fetch the details have one shape: the body
  either reaches \<open>recipes_with_info.append(recipe)\<close> with the recipe as it then is, or
  goes on to the next recipe without appending.
\<close>

fun detail_loop ::
  "(recipe \<Rightarrow> world \<Rightarrow> recipe option \<times> world) \<Rightarrow> recipe list \<Rightarrow> world \<Rightarrow> recipe list \<times> world" where
  "detail_loop body [] w = ([], w)"
| "detail_loop body (recipe # recipes) w =
     (case body recipe w of
        (None, w1) \<Rightarrow> detail_loop body recipes w1
      | (Some r, w1) \<Rightarrow> (case detail_loop body recipes w1 of (out, w2) \<Rightarrow> (r # out, w2)))"

definition set_attr :: "recipe \<Rightarrow> string \<Rightarrow> json \<Rightarrow> recipe" where
  "set_attr recipe k v = recipe\<lparr>attrs := (attrs recipe)(k \<mapsto> v)\<rparr>"

text \<open>The assignments from \<open>info\<close> in exact mode, and the third one of the other two loops.\<close>

definition enrich_exact :: "recipe \<Rightarrow> dict \<Rightarrow> recipe" where
  "enrich_exact recipe info =
     set_attr (set_attr recipe ''readyInMinutes'' (dict_get info ''readyInMinutes''))
       ''cuisines'' (dict_get_default info ''cuisines'' (JList []))"

definition enrich :: "recipe \<Rightarrow> dict \<Rightarrow> recipe" where
  "enrich recipe info =
     (let r = enrich_exact recipe info
      in set_attr r ''image''
           (dict_get_default info ''image'' (dict_get_default (attrs r) ''image'' (JStr []))))"

text \<open>
  The filters of the \<open>OR\<close> loop. Each gives \<open>Inr True\<close> when its \<open>continue\<close> is reached
  and \<open>Inl\<close> when evaluating its condition raises.
\<close>

definition exceeds_max_time ::
  "(string \<Rightarrow> exn + int) \<Rightarrow> string option \<Rightarrow> dict \<Rightarrow> exn + bool" where
  "exceeds_max_time to_int max_time info =
     (case max_time of
        None \<Rightarrow> Inr False
      | Some s \<Rightarrow>
          if s = [] then Inr False
          else (case to_int s of
                  Inl e \<Rightarrow> Inl e
                | Inr m \<Rightarrow> py_gt (dict_get_default info ''readyInMinutes'' (JInt 0)) m))"

definition lacks :: "string option \<Rightarrow> string \<Rightarrow> dict \<Rightarrow> exn + bool" where
  "lacks wanted key info =
     (case wanted of
        None \<Rightarrow> Inr False
      | Some s \<Rightarrow>
          if s = [] then Inr False
          else (case py_in s (dict_get_default info key (JList [])) of
                  Inl e \<Rightarrow> Inl e
                | Inr b \<Rightarrow> Inr (\<not> b)))"

definition filtered_out ::
  "(string \<Rightarrow> exn + int) \<Rightarrow> string option \<Rightarrow> string option \<Rightarrow> string option \<Rightarrow> dict \<Rightarrow> exn + bool" where
  "filtered_out to_int max_time cuisine dish_type info =
     (case exceeds_max_time to_int max_time info of
        Inl e \<Rightarrow> Inl e
      | Inr True \<Rightarrow> Inr True
      | Inr False \<Rightarrow>
          (case lacks cuisine ''cuisines'' info of
             Inl e \<Rightarrow> Inl e
           | Inr True \<Rightarrow> Inr True
           | Inr False \<Rightarrow> lacks dish_type ''dishTypes'' info))"

text \<open>
  The body of the \<open>OR\<close> loop of \<open>get_recipes\<close>: \<open>except: pass\<close>, then the append.
  \<open>recipe['id']\<close> raises \<open>KeyError\<close> before any request when the id is missing.
\<close>

definition or_body ::
  "(string \<Rightarrow> exn + int) \<Rightarrow> spoonacular \<Rightarrow> string option \<Rightarrow> string option \<Rightarrow> string option \<Rightarrow>
   recipe \<Rightarrow> world \<Rightarrow> recipe option \<times> world" where
  "or_body to_int api max_time cuisine dish_type recipe w =
     (case rid recipe of
        None \<Rightarrow> (Some recipe, w)
      | Some i \<Rightarrow>
          (case get_information api i w of
             (Inl e, w1) \<Rightarrow> (Some recipe, w1)
           | (Inr info, w1) \<Rightarrow>
               (case filtered_out to_int max_time cuisine dish_type info of
                  Inr True \<Rightarrow> (None, w1)
                | _ \<Rightarrow> (Some (enrich recipe info), w1))))"

text \<open>The body of the loop of exact mode: \<open>except: pass\<close>, then the append.\<close>

definition exact_body :: "spoonacular \<Rightarrow> recipe \<Rightarrow> world \<Rightarrow> recipe option \<times> world" where
  "exact_body api recipe w =
     (case rid recipe of
        None \<Rightarrow> (Some recipe, w)
      | Some i \<Rightarrow>
          (case get_information api i w of
             (Inl e, w1) \<Rightarrow> (Some recipe, w1)
           | (Inr info, w1) \<Rightarrow> (Some (enrich_exact recipe info), w1)))"

text \<open>The body of the loop of \<open>get_fallback_recipes\<close>: \<open>except: continue\<close>.\<close>

definition fallback_body ::
  "spoonacular \<Rightarrow> (int \<rightharpoonup> nat) \<Rightarrow> recipe \<Rightarrow> world \<Rightarrow> recipe option \<times> world" where
  "fallback_body api imc recipe w =
     (case rid recipe of
        None \<Rightarrow> (None, w)
      | Some i \<Rightarrow>
          (case get_information api i w of
             (Inl e, w1) \<Rightarrow> (None, w1)
           | (Inr info, w1) \<Rightarrow>
               (Some (set_attr (enrich recipe info) ''match_count''
                        (JInt (int (match_count_of imc recipe)))), w1)))"

section \<open>The two searches\<close>

text \<open>
  \<open>api_key\<close> is the module's global, read from the environment: \<open>None\<close> or a string.
  Each function takes the world and returns it with the requests it has sent.
\<close>

definition get_recipes ::
  "(string \<Rightarrow> exn + int) \<Rightarrow> string option \<Rightarrow> spoonacular \<Rightarrow> string \<Rightarrow> string option \<Rightarrow> string option \<Rightarrow> int \<Rightarrow>
   string \<Rightarrow> string option \<Rightarrow> bool \<Rightarrow> world \<Rightarrow> (exn + recipe list) \<times> world" where
  "get_recipes to_int api_key api ingredients max_time cuisine num search_type dish_type low_ingredient w =
     (if \<not> truthy_str api_key
      then (Inl (RuntimeError ''API key not set. Add SPOONACULAR_API_KEY to .env file''), w)
      else if search_type = ''OR'' then
        (case collect_matches api (ingredients_list ingredients) agg_empty w of
           (a, w1) \<Rightarrow>
             (case detail_loop (or_body to_int api max_time cuisine dish_type)
                     (py_take num
                        (sort_by_match_count (ingredient_match_count a) (map snd (all_recipes a))))
                     w1 of
                (recipes_with_info, w2) \<Rightarrow> (Inr recipes_with_info, w2)))
      else
        (case (if truthy_str max_time then map_sum id Some (to_int (the max_time)) else Inr None) of
           Inl e \<Rightarrow> (Inl e, w)
         | Inr max_ready \<Rightarrow>
             (case get_complexSearch api
                     \<lparr>includeIngredients = ingredients, number = num, maxReadyTime = max_ready,
                      cs_cuisine = (if truthy_str cuisine then cuisine else None),
                      cs_type = (if truthy_str dish_type then dish_type else None),
                      minIngredients = (if low_ingredient then Some 1 else None),
                      maxIngredients = (if low_ingredient then Some 5 else None)\<rparr> w of
                (Inl (HTTPError status m), w1) \<Rightarrow> (Inl (HTTPError status m), w1)
              | (Inl e, w1) \<Rightarrow> (Inl (RuntimeError (''Error fetching recipes: '' @ exn_str e)), w1)
              | (Inr results, w1) \<Rightarrow>
                  (case detail_loop (exact_body api)
                          (case results of None \<Rightarrow> [] | Some rs \<Rightarrow> rs) w1 of
                     (recipes_with_info, w2) \<Rightarrow> (Inr recipes_with_info, w2)))))"

definition get_fallback_recipes ::
  "string option \<Rightarrow> spoonacular \<Rightarrow> string \<Rightarrow> int \<Rightarrow> world \<Rightarrow> recipe list \<times> world" where
  "get_fallback_recipes api_key api ingredients num w =
     (if \<not> truthy_str api_key then ([], w)
      else
        (case collect_matches api (ingredients_list ingredients) agg_empty w of
           (a, w1) \<Rightarrow>
             detail_loop (fallback_body api (ingredient_match_count a))
               (py_take num
                  (sort_by_match_count (ingredient_match_count a) (map snd (all_recipes a))))
               w1))"

section \<open>The search page\<close>

text \<open>
  The session keys the handler \<open>ingredients\<close> writes. A key that is not in the session
  is \<open>None\<close>.
\<close>

record search_params =
  sp_ingredients :: string
  sp_max_time :: string
  sp_cuisine :: string
  sp_search_type :: string
  sp_dish_type :: string
  sp_low_ingredient :: bool

record session =
  sess_all_recipes :: "recipe list option"
  sess_is_fallback :: "bool option"
  sess_search_params :: "search_params option"

text \<open>
  The submitted form. The last three fields are read with \<open>request.form.get\<close> and may
  be missing.
\<close>

record ingredient_form =
  f_ingredients :: string
  f_max_time :: string
  f_cuisine :: string
  f_search_type :: "string option"
  f_dish_type :: "string option"
  f_low_ingredient :: "string option"

text \<open>What the handler hands to the template.\<close>

record page =
  p_recipes :: "recipe list option"
  p_error :: "string option"
  p_total_recipes :: nat

text \<open>The projection \<open>store_recipes_in_session\<close> keeps of each recipe.\<close>

definition stored_recipe :: "recipe \<Rightarrow> recipe" where
  "stored_recipe r =
     \<lparr>rid = rid r,
      attrs = [''title'' \<mapsto> dict_get (attrs r) ''title'',
               ''image'' \<mapsto> dict_get_default (attrs r) ''image'' (JStr []),
               ''readyInMinutes'' \<mapsto> dict_get (attrs r) ''readyInMinutes'',
               ''cuisines'' \<mapsto> dict_get_default (attrs r) ''cuisines'' (JList []),
               ''usedIngredientCount'' \<mapsto> dict_get (attrs r) ''usedIngredientCount'',
               ''missedIngredientCount'' \<mapsto> dict_get (attrs r) ''missedIngredientCount'',
               ''usedIngredients'' \<mapsto> dict_get_default (attrs r) ''usedIngredients'' (JList []),
               ''missedIngredients'' \<mapsto> dict_get_default (attrs r) ''missedIngredients'' (JList []),
               ''match_count'' \<mapsto> dict_get (attrs r) ''match_count'']\<rparr>"

definition store_recipes_in_session :: "recipe list \<Rightarrow> session \<Rightarrow> session" where
  "store_recipes_in_session recipes_list sess =
     sess\<lparr>sess_all_recipes := Some (map stored_recipe recipes_list)\<rparr>"

fun str_nat :: "nat \<Rightarrow> string" where
  "str_nat n =
     (if n < 10 then [char_of (48 + n)]
      else str_nat (n div 10) @ [char_of (48 + n mod 10)])"

declare str_nat.simps [simp del]

definition http_error_message :: "nat \<Rightarrow> string" where
  "http_error_message status_code =
     (if status_code = 402 then
        ''API quota exceeded. The free Spoonacular API tier allows 150 requests per day. Please try again tomorrow or upgrade your API plan at https://spoonacular.com/food-api/pricing''
      else if status_code = 401 then
        ''API key is invalid. Please check your SPOONACULAR_API_KEY in the .env file.''
      else if status_code = 429 then ''Too many requests. Please wait a moment and try again.''
      else ''Error from API: '' @ str_nat status_code)"

text \<open>
  The end of the handler, after the form has been dealt with: results left in the session
  are shown when the request produced none, and the total is counted.
\<close>

definition render :: "recipe list option \<Rightarrow> string option \<Rightarrow> session \<Rightarrow> page \<times> session" where
  "render recipes error sess =
     (case (case sess_all_recipes sess of
              None \<Rightarrow> (recipes, error, sess)
            | Some all \<Rightarrow>
                if recipes \<noteq> None then (recipes, error, sess)
                else if all \<noteq> []
                then (Some all,
                      (if sess_is_fallback sess = Some True
                       then Some ''Showing recipes that share at least one ingredient with your search:''
                       else error),
                      sess)
                else (recipes, error, sess\<lparr>sess_all_recipes := None\<rparr>)) of
        (recipes1, error1, sess1) \<Rightarrow>
          (\<lparr>p_recipes = recipes1, p_error = error1,
            p_total_recipes =
              (case sess_all_recipes sess1 of
                 Some all \<Rightarrow> length all
               | None \<Rightarrow> (case recipes1 of None \<Rightarrow> 0 | Some rs \<Rightarrow> length rs))\<rparr>,
           sess1))"

text \<open>
  The handler \<open>ingredients\<close> on a POST whose form validates, for a logged-in user. The
  favourite ids it also reads do not influence the search and are left out.
\<close>

definition ingredients_post ::
  "(string \<Rightarrow> exn + int) \<Rightarrow> string option \<Rightarrow> spoonacular \<Rightarrow> ingredient_form \<Rightarrow> session \<Rightarrow> world \<Rightarrow>
   (page \<times> session) \<times> world" where
  "ingredients_post to_int api_key api form sess w =
     (let ingredients_text = handler_ingredients_text (f_ingredients form);
          max_time = (if f_max_time form \<noteq> [] then Some (f_max_time form) else None);
          cuisine = (if f_cuisine form \<noteq> [] then Some (f_cuisine form) else None);
          search_type = (case f_search_type form of None \<Rightarrow> ''AND'' | Some t \<Rightarrow> t);
          dish_type = (case f_dish_type form of None \<Rightarrow> [] | Some t \<Rightarrow> t);
          low_ingredient = (f_low_ingredient form = Some ''on'');
          sess1 = sess\<lparr>sess_all_recipes := None,
                       sess_search_params :=
                         Some \<lparr>sp_ingredients = f_ingredients form,
                               sp_max_time = (case max_time of None \<Rightarrow> [] | Some t \<Rightarrow> t),
                               sp_cuisine = (case cuisine of None \<Rightarrow> [] | Some t \<Rightarrow> t),
                               sp_search_type = search_type, sp_dish_type = dish_type,
                               sp_low_ingredient = low_ingredient\<rparr>\<rparr>
      in case get_recipes to_int api_key api ingredients_text max_time cuisine 30 search_type
                (Some dish_type) low_ingredient w of
           (Inr all, w1) \<Rightarrow>
             if all = [] then
               (case get_fallback_recipes api_key api ingredients_text 30 w1 of
                  (fallback_recipes, w2) \<Rightarrow>
                    if fallback_recipes \<noteq> [] then
                      (render (Some fallback_recipes)
                         (Some ''No exact matches found. Here are recipes that share at least one ingredient with your search:'')
                         ((store_recipes_in_session fallback_recipes sess1)
                            \<lparr>sess_is_fallback := Some True\<rparr>), w2)
                    else
                      (render None (Some ''No recipes found. Try different ingredients.'')
                         (sess1\<lparr>sess_all_recipes := None\<rparr>), w2))
             else
               (render (Some all) None
                  ((store_recipes_in_session all sess1)\<lparr>sess_is_fallback := None\<rparr>), w1)
         | (Inl (HTTPError status_code m), w1) \<Rightarrow>
             (render None (Some (http_error_message status_code)) sess1, w1)
         | (Inl e, w1) \<Rightarrow> (render None (Some (''Something went wrong: '' @ exn_str e)) sess1, w1))"

section \<open>The database: users and favorites\<close>

record user =
  u_id :: int
  email :: string
  password_hash :: string

text \<open>
  The two cached columns are text columns; the image may be \<open>NULL\<close>.
\<close>

record favorite =
  fav_id :: int
  user_id :: int
  recipe_id :: int
  recipe_title :: string
  recipe_image :: "string option"

record db =
  users :: "user list"
  favorites :: "favorite list"

text \<open>The next primary key: one more than the largest in the table.\<close>

definition next_id :: "int list \<Rightarrow> int" where
  "next_id ids = fold max ids 0 + 1"

subsection \<open>Signup and login\<close>

text \<open>
  \<open>generate_password_hash\<close> and \<open>check_password_hash\<close> are werkzeug's; they are
  parameters. \<open>valid\<close> is the value of \<open>form.validate_on_submit()\<close>.
\<close>

record signup_form =
  su_email :: string
  su_password :: string
  su_confirm_password :: string

datatype signup_outcome = AccountCreated | EmailExists | SignupFormShown

definition signup ::
  "(string \<Rightarrow> string) \<Rightarrow> bool \<Rightarrow> signup_form \<Rightarrow> db \<Rightarrow> signup_outcome \<times> db" where
  "signup generate_password_hash valid form d =
     (if valid then
        (case find (\<lambda>u. email u = py_lower (su_email form)) (users d) of
           Some existing \<Rightarrow> (EmailExists, d)
         | None \<Rightarrow>
             (AccountCreated,
              d\<lparr>users := users d @
                   [\<lparr>u_id = next_id (map u_id (users d)),
                     email = py_lower (su_email form),
                     password_hash = generate_password_hash (su_password form)\<rparr>]\<rparr>))
      else (SignupFormShown, d))"

record login_form =
  li_email :: string
  li_password :: string

datatype login_outcome = LoggedIn user | InvalidCredentials | LoginFormShown

definition login ::
  "(string \<Rightarrow> string \<Rightarrow> bool) \<Rightarrow> bool \<Rightarrow> login_form \<Rightarrow> db \<Rightarrow> login_outcome" where
  "login check_password_hash valid form d =
     (if valid then
        (case find (\<lambda>u. email u = py_lower (li_email form)) (users d) of
           Some user \<Rightarrow>
             if check_password_hash (password_hash user) (li_password form)
             then LoggedIn user else InvalidCredentials
         | None \<Rightarrow> InvalidCredentials)
      else LoginFormShown)"

subsection \<open>Favorites\<close>

text \<open>The JSON answer of the two endpoints, without its message text, and the status.\<close>

record response =
  success :: bool
  status :: nat

text \<open>An integer column and a bound integer parameter hold 64 bits.\<close>

definition in_int64 :: "int \<Rightarrow> bool" where
  "in_int64 n = (- (2 ^ 63) \<le> n \<and> n < 2 ^ 63)"

definition str_int :: "int \<Rightarrow> string" where
  "str_int n = (if n < 0 then CHR ''-'' # str_nat (nat (- n)) else str_nat (nat n))"

text \<open>
  What a text column stores for a bound value: \<open>NULL\<close> for \<open>None\<close>, the text of a str,
  the decimal text of an int or of a bool (an int in Python). The outer \<open>None\<close> is a
  value that cannot be bound: an int outside 64 bits, a list, a dict.
\<close>

fun text_column :: "json \<Rightarrow> string option option" where
  "text_column JNull = Some None"
| "text_column (JStr s) = Some (Some s)"
| "text_column (JInt n) = (if in_int64 n then Some (Some (str_int n)) else None)"
| "text_column (JBool b) = Some (Some (if b then ''1'' else ''0''))"
| "text_column (JList vs) = None"
| "text_column (JObj kvs) = None"

text \<open>
  \<open>add_favorite\<close> for the logged-in user \<open>current_user_id\<close>. Every row holds 64-bit
  ids, so the pre-check finds no row for an id outside that range; binding such an id to
  the query raises, before any request. Any exception, from the query, from the request or
  from the commit (the title column is \<open>NOT NULL\<close>), gives the answer 500 and leaves the
  table as it was.
\<close>

definition add_favorite ::
  "spoonacular \<Rightarrow> int \<Rightarrow> int \<Rightarrow> db \<Rightarrow> world \<Rightarrow> (response \<times> db) \<times> world" where
  "add_favorite api current_user_id rec_id d w =
     (case find (\<lambda>f. user_id f = current_user_id \<and> recipe_id f = rec_id) (favorites d) of
        Some existing \<Rightarrow> ((\<lparr>success = False, status = 400\<rparr>, d), w)
      | None \<Rightarrow>
          if \<not> in_int64 current_user_id \<or> \<not> in_int64 rec_id
          then ((\<lparr>success = False, status = 500\<rparr>, d), w)
          else
            (case get_information api rec_id w of
               (Inl e, w1) \<Rightarrow> ((\<lparr>success = False, status = 500\<rparr>, d), w1)
             | (Inr recipe_data, w1) \<Rightarrow>
                 (case (text_column (dict_get_default recipe_data ''title'' (JStr ''Unknown'')),
                        text_column (dict_get_default recipe_data ''image'' (JStr []))) of
                    (Some (Some title_text), Some image_text) \<Rightarrow>
                      ((\<lparr>success = True, status = 200\<rparr>,
                        d\<lparr>favorites := favorites d @
                             [\<lparr>fav_id = next_id (map fav_id (favorites d)),
                               user_id = current_user_id, recipe_id = rec_id,
                               recipe_title = title_text, recipe_image = image_text\<rparr>]\<rparr>), w1)
                  | _ \<Rightarrow> ((\<lparr>success = False, status = 500\<rparr>, d), w1))))"

definition remove_favorite :: "int \<Rightarrow> int \<Rightarrow> db \<Rightarrow> response \<times> db" where
  "remove_favorite current_user_id rec_id d =
     (case find (\<lambda>f. user_id f = current_user_id \<and> recipe_id f = rec_id) (favorites d) of
        Some fav \<Rightarrow>
          (\<lparr>success = True, status = 200\<rparr>, d\<lparr>favorites := remove1 fav (favorites d)\<rparr>)
      | None \<Rightarrow>
          if \<not> in_int64 current_user_id \<or> \<not> in_int64 rec_id
          then (\<lparr>success = False, status = 500\<rparr>, d)
          else (\<lparr>success = False, status = 404\<rparr>, d))"

section \<open>Properties stated over the model\<close>

definition favorite_pairs :: "db \<Rightarrow> (int \<times> int) list" where
  "favorite_pairs d = map (\<lambda>f. (user_id f, recipe_id f)) (favorites d)"

definition emails_lowercase :: "db \<Rightarrow> bool" where
  "emails_lowercase d = list_all (\<lambda>u. py_lower (email u) = email u) (users d)"

text \<open>The requests sent between two worlds, the later one extending the earlier.\<close>

fun is_information :: "request \<Rightarrow> bool" where
  "is_information (Information i) = True"
| "is_information r = False"

definition sent :: "world \<Rightarrow> world \<Rightarrow> request list" where
  "sent w w' = drop (length w) w'"

text \<open>
  What the aggregation loop keeps true of its two dicts: the keys of \<open>all_recipes\<close> are
  distinct, they are the keys of \<open>ingredient_match_count\<close>, and each is the non-zero id
  of its recipe.
\<close>

definition agg_inv :: "agg \<Rightarrow> bool" where
  "agg_inv a =
     (distinct (map fst (all_recipes a)) \<and>
      dom (ingredient_match_count a) = fst ` set (all_recipes a) \<and>
      (\<forall>(k, r)\<in>set (all_recipes a). rid r = Some k \<and> k \<noteq> 0))"

text \<open>\<open>ingredient_match_count.get(i, 0)\<close>, and the number of entries of a response with id \<open>i\<close>.\<close>

definition count_in :: "(int \<rightharpoonup> nat) \<Rightarrow> int \<Rightarrow> nat" where
  "count_in imc i = (case imc i of None \<Rightarrow> 0 | Some c \<Rightarrow> c)"

definition occurrences :: "int \<Rightarrow> recipe list \<Rightarrow> nat" where
  "occurrences i rs = length (filter (\<lambda>r. rid r = Some i) rs)"

text \<open>
  The bodies the per-ingredient searches answer with, in the order of the ingredient list;
  a search that raises contributes no recipe.
\<close>

fun search_responses :: "spoonacular \<Rightarrow> string list \<Rightarrow> world \<Rightarrow> recipe list list" where
  "search_responses api [] w = []"
| "search_responses api (ingredient # rest) w =
     (case get_findByIngredients api ingredient w of
        (Inl e, w1) \<Rightarrow> [] # search_responses api rest w1
      | (Inr recipes, w1) \<Rightarrow> recipes # search_responses api rest w1)"

definition emails_unique :: "db \<Rightarrow> bool" where
  "emails_unique d = distinct (map email (users d))"

text \<open>
  The run of a detail loop, one entry for each recipe handed to it: the world in which the
  recipe is reached, and what the body does with it (\<open>None\<close> when nothing is appended).
\<close>

fun detail_steps ::
  "(recipe \<Rightarrow> world \<Rightarrow> recipe option \<times> world) \<Rightarrow> recipe list \<Rightarrow> world \<Rightarrow>
   (world \<times> recipe option) list" where
  "detail_steps body [] w = []"
| "detail_steps body (recipe # recipes) w =
     (w, fst (body recipe w)) # detail_steps body recipes (snd (body recipe w))"

section \<open>Concrete services and tables\<close>

text \<open>
  \<open>int\<close> on the four values the form offers for the maximal time; it rejects every other
  string, and the examples below pass it none.
\<close>

definition int_choices :: "string \<Rightarrow> exn + int" where
  "int_choices s =
     (if s = ''15'' then Inr 15 else if s = ''30'' then Inr 30
      else if s = ''60'' then Inr 60 else if s = ''120'' then Inr 120
      else Inl (ValueError s))"

text \<open>A service that answers every request with an empty body.\<close>

definition api_empty :: spoonacular where
  "api_empty =
     \<lparr>findByIngredients = (\<lambda>w ingredient. Inr []),
      information = (\<lambda>w i. Inr Map.empty),
      complexSearch = (\<lambda>w params. Inr None)\<rparr>"

definition db_one_favorite :: db where
  "db_one_favorite =
     \<lparr>users = [],
      favorites = [\<lparr>fav_id = 1, user_id = 1, recipe_id = 7,
                    recipe_title = ''Soup'', recipe_image = Some []\<rparr>]\<rparr>"

definition db_empty :: db where
  "db_empty = \<lparr>users = [], favorites = []\<rparr>"

definition hash_tagged :: "string \<Rightarrow> string" where
  "hash_tagged p = ''h:'' @ p"

definition check_tagged :: "string \<Rightarrow> string \<Rightarrow> bool" where
  "check_tagged h p = (h = ''h:'' @ p)"

definition form_ann :: signup_form where
  "form_ann =
     \<lparr>su_email = ''Ann@Example.COM'', su_password = ''secret1'',
      su_confirm_password = ''secret1''\<rparr>"

definition db_ann :: db where
  "db_ann =
     \<lparr>users = [\<lparr>u_id = 1, email = ''ann@example.com'', password_hash = ''h:secret1''\<rparr>],
      favorites = []\<rparr>"

definition recipe_A :: recipe where
  "recipe_A = \<lparr>rid = Some 1, attrs = [''title'' \<mapsto> JStr ''A'']\<rparr>"

definition recipe_B :: recipe where
  "recipe_B = \<lparr>rid = Some 2, attrs = [''title'' \<mapsto> JStr ''B'']\<rparr>"

text \<open>egg finds B and A, rice finds A; every detail request fails; the exact search finds A and B.\<close>

definition api_egg_rice :: spoonacular where
  "api_egg_rice =
     \<lparr>findByIngredients =
        (\<lambda>w ingredient. if ingredient = ''egg'' then Inr [recipe_B, recipe_A]
                          else if ingredient = ''rice'' then Inr [recipe_A] else Inr []),
      information = (\<lambda>w i. Inl (RequestException ''timed out'')),
      complexSearch = (\<lambda>w params. Inr (Some [recipe_A, recipe_B]))\<rparr>"

text \<open>egg finds A, once; nothing else is found.\<close>

definition api_egg_only :: spoonacular where
  "api_egg_only =
     \<lparr>findByIngredients = (\<lambda>w ingredient. if ingredient = ''egg'' then Inr [recipe_A] else Inr []),
      information = (\<lambda>w i. Inl (RequestException ''timed out'')),
      complexSearch = (\<lambda>w params. Inr (Some [recipe_A, recipe_B]))\<rparr>"

definition user_ann :: user where
  "user_ann = \<lparr>u_id = 1, email = ''ann@example.com'', password_hash = ''h:secret1''\<rparr>"

definition user_bob :: user where
  "user_bob = \<lparr>u_id = 2, email = ''bob@example.com'', password_hash = ''h:hunter22''\<rparr>"

definition db_ann_bob :: db where
  "db_ann_bob = \<lparr>users = [user_ann, user_bob], favorites = []\<rparr>"

(*THEOREMS*)

section \<open>Favorites\<close>

lemma find_pair_None:
  "find (\<lambda>f. user_id f = uid \<and> recipe_id f = r) fs = None \<longleftrightarrow>
   (uid, r) \<notin> set (map (\<lambda>f. (user_id f, recipe_id f)) fs)"
  by (induction fs) auto

text \<open>
  C7. Adding a favorite for a (user, recipe) pair that already has a row is answered with
  a rejection (status 400, no success), the table and the world are left as they were; and
  \<open>add_favorite\<close> never makes a table without duplicate pairs into one with a duplicate.
\<close>

theorem add_favorite_rejects_duplicate:
  "((uid, r) \<in> set (favorite_pairs d) \<longrightarrow>
      add_favorite api uid r d w = ((\<lparr>success = False, status = 400\<rparr>, d), w)) \<and>
   (distinct (favorite_pairs d) \<longrightarrow>
      distinct (favorite_pairs (snd (fst (add_favorite api uid r d w)))))"
proof (cases "find (\<lambda>f. user_id f = uid \<and> recipe_id f = r) (favorites d)")
  case None
  then have nin: "(uid, r) \<notin> set (favorite_pairs d)"
    by (simp add: find_pair_None favorite_pairs_def)
  have "distinct (favorite_pairs (snd (fst (add_favorite api uid r d w))))"
    if "distinct (favorite_pairs d)"
    using that nin None
    by (auto simp: add_favorite_def favorite_pairs_def split: prod.splits sum.splits option.splits)
  with nin show ?thesis by simp
next
  case (Some f)
  then have "(uid, r) \<in> set (favorite_pairs d)"
    using find_pair_None[of uid r "favorites d"] by (simp add: favorite_pairs_def)
  with Some show ?thesis by (simp add: add_favorite_def)
qed

theorem add_favorite_rejects_duplicate_witness:
  "(1, 7) \<in> set (favorite_pairs db_one_favorite) \<and>
   distinct (favorite_pairs db_one_favorite) \<and>
   add_favorite api_empty 1 7 db_one_favorite [] =
     ((\<lparr>success = False, status = 400\<rparr>, db_one_favorite), []) \<and>
   distinct (favorite_pairs (snd (fst (add_favorite api_empty 1 7 db_one_favorite []))))"
  using add_favorite_rejects_duplicate
    [where uid = 1 and r = 7 and d = db_one_favorite and api = api_empty and w = "[]"]
  by (simp add: favorite_pairs_def db_one_favorite_def)

section \<open>Missing credential\<close>

text \<open>
  C9, as amended. When the credential is missing (\<open>None\<close> or empty), \<open>get_recipes\<close>
  raises its configuration error with the world unchanged, so before any request; that
  error is neither an \<open>HTTPError\<close> nor the wrapped error of a failed search. The
  fallback search does not raise: it returns the empty list, also without any request.
\<close>

theorem missing_key_get_recipes_raises_fallback_returns_empty:
  "\<not> truthy_str api_key \<longrightarrow>
     get_recipes to_int api_key api ingredients max_time cuisine num search_type dish_type low_ingredient w =
       (Inl (RuntimeError ''API key not set. Add SPOONACULAR_API_KEY to .env file''), w) \<and>
     get_fallback_recipes api_key api ingredients num w = ([], w) \<and>
     RuntimeError ''API key not set. Add SPOONACULAR_API_KEY to .env file'' \<noteq> HTTPError status_code m \<and>
     RuntimeError ''API key not set. Add SPOONACULAR_API_KEY to .env file'' \<noteq>
       RuntimeError (''Error fetching recipes: '' @ exn_str e)"
  by (simp add: get_recipes_def get_fallback_recipes_def)

theorem missing_key_witness:
  "\<not> truthy_str None \<and>
   get_recipes int_choices None api_empty ''eggs'' None None 30 ''AND'' None False [] =
     (Inl (RuntimeError ''API key not set. Add SPOONACULAR_API_KEY to .env file''), []) \<and>
   get_fallback_recipes None api_empty ''eggs'' 30 [] = ([], [])"
  using missing_key_get_recipes_raises_fallback_returns_empty
    [where to_int = int_choices and api_key = None and api = api_empty and ingredients = "''eggs''" and max_time = None
       and cuisine = None and num = 30 and search_type = "''AND''" and dish_type = None
       and low_ingredient = False and w = "[]"]
  by (simp add: truthy_str_def)

text \<open>
  The claim as stated fails for the fallback search: without a credential it returns
  normally, with an empty list.
\<close>

theorem fallback_missing_key_counterexample:
  "get_fallback_recipes None api_empty ''eggs'' 30 [] = ([], [])"
  by (simp add: get_fallback_recipes_def truthy_str_def)

section \<open>Facts about the string functions\<close>

lemma split_on_not_Nil: "split_on c s \<noteq> []"
  by (induction s) (auto split: list.splits)

lemma split_on_no_sep: "t \<in> set (split_on c s) \<Longrightarrow> c \<notin> set t"
  by (induction s arbitrary: t) (auto split: list.splits if_splits)

lemma split_on_single: "c \<notin> set x \<Longrightarrow> split_on c x = [x]"
  by (induction x) auto

lemma split_on_append: "c \<notin> set x \<Longrightarrow> split_on c (x @ c # rest) = x # split_on c rest"
  by (induction x) (auto split: list.splits)

lemma split_on_join:
  "\<forall>x\<in>set (x # xs). CHR '','' \<notin> set x \<Longrightarrow>
   split_on CHR '','' (py_join '', '' (x # xs)) = x # map (\<lambda>y. CHR '' '' # y) xs"
proof (induction xs arbitrary: x)
  case Nil then show ?case by (simp add: split_on_single)
next
  case (Cons y ys)
  have "py_join '', '' (x # y # ys) = x @ CHR '','' # (CHR '' '' # py_join '', '' (y # ys))" by simp
  moreover have "split_on CHR '','' (CHR '' '' # py_join '', '' (y # ys)) = (CHR '' '' # y) # map (\<lambda>y. CHR '' '' # y) ys"
    using Cons.IH[of y] Cons.prems by simp
  ultimately show ?case using Cons.prems by (simp only: split_on_append[of _ x] list.map) (simp add: split_on_append)
qed

lemma py_isspace_space: "py_isspace CHR '' ''"
  by (simp add: py_isspace_def)

lemma py_strip_space_Cons: "py_strip (CHR '' '' # y) = py_strip y"
  by (simp add: py_strip_def py_isspace_space)

lemma dropWhile_rev_dropWhile:
  "dropWhile P (rev (dropWhile P (rev (dropWhile P s)))) = rev (dropWhile P (rev (dropWhile P s)))"
proof (cases "dropWhile P s")
  case Nil then show ?thesis by (simp only: Nil rev.simps dropWhile.simps)
next
  case (Cons a as)
  then have a: "\<not> P a" by (metis hd_dropWhile list.sel(1) list.distinct(1))
  have "rev (dropWhile P (rev (a # as))) = a # rev (dropWhile P (rev as))"
    using a by (simp add: dropWhile_append)
  then show ?thesis using Cons a by simp
qed

lemma py_strip_idem: "py_strip (py_strip s) = py_strip s"
proof -
  let ?t = "rev (dropWhile py_isspace (rev (dropWhile py_isspace s)))"
  have 1: "dropWhile py_isspace ?t = ?t" by (rule dropWhile_rev_dropWhile)
  show ?thesis unfolding py_strip_def by (simp only: 1 dropWhile_idem rev_rev_ident)
qed

lemma set_py_strip: "set (py_strip s) \<subseteq> set s"
  unfolding py_strip_def by (metis set_dropWhileD set_rev subsetI)

lemma handler_list_props:
  assumes "t \<in> set (handler_ingredients_list s)"
  shows "py_strip t = t" and "t \<noteq> []" and "CHR '','' \<notin> set t" and "\<not> startswith t ''#''"
proof -
  from assms obtain ing where ing: "ing \<in> set (split_on CHR '','' s)" "t = py_strip ing"
    "py_strip ing \<noteq> []" "\<not> startswith (py_strip ing) ''#''"
    by (auto simp: handler_ingredients_list_def)
  show "py_strip t = t" using ing by (simp add: py_strip_idem)
  show "t \<noteq> []" using ing by simp
  show "\<not> startswith t ''#''" using ing by simp
  have "CHR '','' \<notin> set ing" using ing(1) by (rule split_on_no_sep)
  then show "CHR '','' \<notin> set t" using set_py_strip[of ing] ing(2) by auto
qed

lemma strip_tokens_of_join:
  assumes "\<forall>t\<in>set ts. py_strip t = t \<and> t \<noteq> [] \<and> CHR '','' \<notin> set t"
  shows "map py_strip (filter (\<lambda>ing. py_strip ing \<noteq> []) (split_on CHR '','' (py_join '', '' ts))) = ts"
proof (cases ts)
  case Nil
  then show ?thesis by (simp add: py_strip_def)
next
  case (Cons x xs)
  have sp: "split_on CHR '','' (py_join '', '' (x # xs)) = x # map (\<lambda>y. CHR '' '' # y) xs"
    using assms Cons by (intro split_on_join) auto
  have "map py_strip (filter (\<lambda>ing. py_strip ing \<noteq> []) (map (\<lambda>y. CHR '' '' # y) ys)) = ys"
    if "\<forall>t\<in>set ys. py_strip t = t \<and> t \<noteq> []" for ys
    using that by (induction ys) (auto simp: py_strip_space_Cons)
  from this[of xs] show ?thesis using assms Cons by (simp add: sp)
qed

lemma query_tokens:
  "map py_strip (filter (\<lambda>ing. py_strip ing \<noteq> [])
     (split_on CHR '','' (handler_ingredients_text s))) = handler_ingredients_list s"
  unfolding handler_ingredients_text_def
  by (rule strip_tokens_of_join) (auto dest: handler_list_props)

lemma ingredients_list_query:
  "ingredients_list (handler_ingredients_text s) = map py_lower (handler_ingredients_list s)"
proof -
  have "ingredients_list q = map py_lower (map py_strip (filter (\<lambda>ing. py_strip ing \<noteq> []) (split_on CHR '','' q)))" for q
    by (simp add: ingredients_list_def)
  then show ?thesis by (simp only: query_tokens)
qed

lemma py_lower_char_hash: "py_lower_char c = CHR ''#'' \<longleftrightarrow> c = CHR ''#''"
proof (cases "py_isupper c")
  case True
  define n where "n = (of_char c :: nat)"
  have l: "py_lower_char c = char_of (n + 32)"
    using True by (simp add: py_lower_char_def n_def)
  have n: "65 \<le> n" "n \<le> 222" using True by (auto simp: n_def py_isupper_def Let_def)
  have "(of_char (char_of (n + 32) :: char) :: nat) = (n + 32) mod 256" by simp
  also have "\<dots> = n + 32" using n by simp
  finally have "(of_char (py_lower_char c) :: nat) \<noteq> 35" using n l by simp
  then have 1: "py_lower_char c \<noteq> CHR ''#''" by auto
  have "(of_char c :: nat) \<noteq> 35" using n by (simp add: n_def)
  then have 2: "c \<noteq> CHR ''#''" by auto
  show ?thesis using 1 2 by simp
next
  case False
  then have "py_lower_char c = c" by (simp add: py_lower_char_def)
  then show ?thesis by simp
qed

lemma py_lower_char_not_upper: "\<not> py_isupper (py_lower_char c)"
proof (cases "py_isupper c")
  case True
  define n where "n = (of_char c :: nat)"
  have l: "py_lower_char c = char_of (n + 32)"
    using True by (simp add: py_lower_char_def n_def)
  have n: "(65 \<le> n \<and> n \<le> 90) \<or> (192 \<le> n \<and> n \<le> 222 \<and> n \<noteq> 215)"
    using True by (simp add: n_def py_isupper_def Let_def)
  have "(of_char (char_of (n + 32) :: char) :: nat) = (n + 32) mod 256" by simp
  also have "\<dots> = n + 32" using n by auto
  finally have e: "(of_char (py_lower_char c) :: nat) = n + 32" using l by simp
  show ?thesis unfolding py_isupper_def Let_def e using n by arith
next
  case False
  then show ?thesis by (simp add: py_lower_char_def)
qed

lemma py_lower_idem: "py_lower (py_lower s) = py_lower s"
proof -
  have "py_lower_char (py_lower_char c) = py_lower_char c" for c
    using py_lower_char_not_upper[of c] by (simp add: py_lower_char_def[of "py_lower_char c"])
  then show ?thesis by (simp add: py_lower_def)
qed

lemma startswith_hash: "startswith t ''#'' \<longleftrightarrow> (case t of [] \<Rightarrow> False | c # _ \<Rightarrow> c = CHR ''#'')"
  by (cases t) (auto simp: startswith_def)

lemma startswith_lower_hash: "startswith (py_lower t) ''#'' \<longleftrightarrow> startswith t ''#''"
  by (cases t) (auto simp: startswith_hash py_lower_def py_lower_char_hash)

section \<open>Accounts\<close>

lemma find_snoc:
  "find P (xs @ [x]) = (case find P xs of None \<Rightarrow> (if P x then Some x else None) | Some y \<Rightarrow> Some y)"
  by (induction xs) auto

lemma emails_lowercase_signup:
  "emails_lowercase d \<Longrightarrow> emails_lowercase (snd (signup gen valid form d))"
  by (auto simp: emails_lowercase_def signup_def py_lower_idem split: option.splits)

lemma emails_lowercase_add_favorite:
  "emails_lowercase d \<Longrightarrow> emails_lowercase (snd (fst (add_favorite api uid r d w)))"
  by (auto simp: emails_lowercase_def add_favorite_def split: option.splits prod.splits sum.splits)

lemma emails_lowercase_remove_favorite:
  "emails_lowercase d \<Longrightarrow> emails_lowercase (snd (remove_favorite uid r d))"
  by (auto simp: emails_lowercase_def remove_favorite_def split: option.splits)

lemma signup_created:
  assumes "signup gen valid form d = (AccountCreated, d')"
  shows "valid" and "find (\<lambda>u. email u = py_lower (su_email form)) (users d) = None"
    and "users d' = users d @ [\<lparr>u_id = next_id (map u_id (users d)),
                     email = py_lower (su_email form),
                     password_hash = gen (su_password form)\<rparr>]"
    and "favorites d' = favorites d"
  using assms by (auto simp: signup_def split: if_splits option.splits)

lemma find_unique_key:
  "distinct (map f xs) \<Longrightarrow> u \<in> set xs \<Longrightarrow> find (\<lambda>x. f x = f u) xs = Some u"
  by (induction xs) (auto simp: image_iff)

lemma find_Some_props: "find P xs = Some x \<Longrightarrow> x \<in> set xs \<and> P x"
  by (induction xs) (auto split: if_splits)

lemma login_lookup:
  assumes "emails_unique d" and "u \<in> set (users d)" and "py_lower e = email u"
  shows "login check True \<lparr>li_email = e, li_password = p\<rparr> d =
         (if check (password_hash u) p then LoggedIn u else InvalidCredentials)"
  using find_unique_key[of email "users d" u] assms
  by (simp add: login_def emails_unique_def)

lemma login_LoggedIn:
  assumes "login check valid lf d = LoggedIn u"
  shows "u \<in> set (users d) \<and> email u = py_lower (li_email lf) \<and>
         check (password_hash u) (li_password lf)"
  using assms find_Some_props[of "\<lambda>u. email u = py_lower (li_email lf)" "users d"]
  by (auto simp: login_def split: if_splits option.splits)

lemma add_favorite_users: "users (snd (fst (add_favorite api uid r d w))) = users d"
  by (auto simp: add_favorite_def split: option.splits prod.splits sum.splits)

lemma remove_favorite_users: "users (snd (remove_favorite uid r d)) = users d"
  by (auto simp: remove_favorite_def split: option.splits)

text \<open>
  C10. A successful signup appends one user whose email is the submitted address in lower
  case, a fixed point of \<open>lower()\<close>; login with the same password and with any address
  that has the same lower-case form then logs this user in, provided the password hash
  accepts the password it was made from. Login looks the user up by the lower-cased
  submitted address: in any table whose emails are pairwise different, login with an
  address whose lower-case form is the email of a user of the table decides on that user,
  and logs in exactly when the stored hash accepts the password; and whoever login logs in
  is a user of the table whose email is the lower-cased submitted address. Signup keeps
  the emails lower-case and pairwise different and removes no user; adding and removing a
  favorite leave the users as they are; login does not write.
\<close>

theorem signup_lowercases_login_any_case:
  "(signup generate_password_hash valid form d = (AccountCreated, d') \<and>
    check_password_hash (generate_password_hash (su_password form)) (su_password form) \<longrightarrow>
      (\<exists>u. users d' = users d @ [u] \<and> email u = py_lower (su_email form) \<and>
           py_lower (email u) = email u \<and>
           (\<forall>e. py_lower e = py_lower (su_email form) \<longrightarrow>
                login check_password_hash True \<lparr>li_email = e, li_password = su_password form\<rparr> d' =
                  LoggedIn u))) \<and>
   (emails_unique d \<and> v \<in> set (users d) \<and> py_lower addr = email v \<longrightarrow>
      login check_password_hash True \<lparr>li_email = addr, li_password = p\<rparr> d =
        (if check_password_hash (password_hash v) p then LoggedIn v else InvalidCredentials)) \<and>
   (login check_password_hash ok lf d = LoggedIn v' \<longrightarrow>
      v' \<in> set (users d) \<and> email v' = py_lower (li_email lf) \<and>
      check_password_hash (password_hash v') (li_password lf)) \<and>
   (emails_lowercase d \<longrightarrow>
      emails_lowercase (snd (signup generate_password_hash valid form d)) \<and>
      emails_lowercase (snd (fst (add_favorite api uid r d w))) \<and>
      emails_lowercase (snd (remove_favorite uid r d))) \<and>
   (emails_unique d \<longrightarrow> emails_unique (snd (signup generate_password_hash valid form d))) \<and>
   set (users d) \<subseteq> set (users (snd (signup generate_password_hash valid form d))) \<and>
   users (snd (fst (add_favorite api uid r d w))) = users d \<and>
   users (snd (remove_favorite uid r d)) = users d"
proof -
  have A: "\<exists>u. users d' = users d @ [u] \<and> email u = py_lower (su_email form) \<and>
           py_lower (email u) = email u \<and>
           (\<forall>e. py_lower e = py_lower (su_email form) \<longrightarrow>
                login check_password_hash True \<lparr>li_email = e, li_password = su_password form\<rparr> d' =
                  LoggedIn u)"
    if s: "signup generate_password_hash valid form d = (AccountCreated, d')"
      and c: "check_password_hash (generate_password_hash (su_password form)) (su_password form)"
  proof -
    let ?u = "\<lparr>u_id = next_id (map u_id (users d)), email = py_lower (su_email form),
               password_hash = generate_password_hash (su_password form)\<rparr>"
    note sc = signup_created[OF s]
    have "login check_password_hash True \<lparr>li_email = e, li_password = su_password form\<rparr> d' = LoggedIn ?u"
      if "py_lower e = py_lower (su_email form)" for e
      using that sc(2,3) c by (simp add: login_def find_snoc)
    then show ?thesis using sc(3) by (intro exI[of _ ?u]) (simp add: py_lower_idem)
  qed
  have B: "login check_password_hash True \<lparr>li_email = addr, li_password = p\<rparr> d =
        (if check_password_hash (password_hash v) p then LoggedIn v else InvalidCredentials)"
    if "emails_unique d" "v \<in> set (users d)" "py_lower addr = email v"
    using that by (rule login_lookup)
  have C: "v' \<in> set (users d) \<and> email v' = py_lower (li_email lf) \<and>
      check_password_hash (password_hash v') (li_password lf)"
    if "login check_password_hash ok lf d = LoggedIn v'"
    using that by (rule login_LoggedIn)
  have D: "emails_unique (snd (signup generate_password_hash valid form d))" if "emails_unique d"
    using that by (auto simp: signup_def emails_unique_def find_None_iff split: option.splits)
  have E: "set (users d) \<subseteq> set (users (snd (signup generate_password_hash valid form d)))"
    by (auto simp: signup_def split: option.splits)
  have P1: "signup generate_password_hash valid form d = (AccountCreated, d') \<and>
    check_password_hash (generate_password_hash (su_password form)) (su_password form) \<longrightarrow>
      (\<exists>u. users d' = users d @ [u] \<and> email u = py_lower (su_email form) \<and>
           py_lower (email u) = email u \<and>
           (\<forall>e. py_lower e = py_lower (su_email form) \<longrightarrow>
                login check_password_hash True \<lparr>li_email = e, li_password = su_password form\<rparr> d' =
                  LoggedIn u))"
    using A by blast
  have P2: "emails_unique d \<and> v \<in> set (users d) \<and> py_lower addr = email v \<longrightarrow>
      login check_password_hash True \<lparr>li_email = addr, li_password = p\<rparr> d =
        (if check_password_hash (password_hash v) p then LoggedIn v else InvalidCredentials)"
    using B by blast
  have P3: "login check_password_hash ok lf d = LoggedIn v' \<longrightarrow>
      v' \<in> set (users d) \<and> email v' = py_lower (li_email lf) \<and>
      check_password_hash (password_hash v') (li_password lf)"
    using C by blast
  have P4: "emails_lowercase d \<longrightarrow>
      emails_lowercase (snd (signup generate_password_hash valid form d)) \<and>
      emails_lowercase (snd (fst (add_favorite api uid r d w))) \<and>
      emails_lowercase (snd (remove_favorite uid r d))"
    using emails_lowercase_signup emails_lowercase_add_favorite emails_lowercase_remove_favorite
    by blast
  have P5: "emails_unique d \<longrightarrow> emails_unique (snd (signup generate_password_hash valid form d))"
    using D by blast
  show ?thesis
    by (intro conjI P1 P2 P3 P4 P5 E add_favorite_users remove_favorite_users)
qed

theorem signup_lowercases_login_any_case_witness:
  "signup hash_tagged True form_ann db_empty = (AccountCreated, db_ann) \<and>
   check_tagged (hash_tagged (su_password form_ann)) (su_password form_ann) \<and>
   emails_lowercase db_empty \<and> emails_unique db_empty \<and>
   py_lower ''ANN@example.com'' = py_lower (su_email form_ann) \<and>
   login check_tagged True \<lparr>li_email = ''ANN@example.com'', li_password = ''secret1''\<rparr> db_ann =
     LoggedIn \<lparr>u_id = 1, email = ''ann@example.com'', password_hash = ''h:secret1''\<rparr> \<and>
   emails_lowercase (snd (signup hash_tagged True form_ann db_empty)) \<and>
   emails_unique (snd (signup hash_tagged True form_ann db_empty)) \<and>
   emails_unique db_ann_bob \<and> user_ann \<in> set (users db_ann_bob) \<and>
   py_lower ''ANN@example.com'' = email user_ann \<and>
   login check_tagged True \<lparr>li_email = ''ANN@example.com'', li_password = ''secret1''\<rparr> db_ann_bob =
     LoggedIn user_ann \<and>
   email user_ann = py_lower ''ANN@example.com'' \<and>
   check_tagged (password_hash user_ann) ''secret1''"
proof -
  have pl: "py_lower ''Ann@Example.COM'' = ''ann@example.com''" by code_simp
  have l: "py_lower ''ANN@example.com'' = py_lower (su_email form_ann)"
    unfolding form_ann_def by code_simp
  have s: "signup hash_tagged True form_ann db_empty = (AccountCreated, db_ann)"
    using pl by (simp add: signup_def db_empty_def next_id_def form_ann_def db_ann_def hash_tagged_def)
  have c: "check_tagged (hash_tagged (su_password form_ann)) (su_password form_ann)"
    by (simp add: check_tagged_def hash_tagged_def)
  have e: "emails_lowercase db_empty" by (simp add: emails_lowercase_def db_empty_def)
  have q: "emails_unique db_empty" by (simp add: emails_unique_def db_empty_def)
  note T = signup_lowercases_login_any_case
    [where generate_password_hash = hash_tagged and valid = True and form = form_ann
       and d = db_empty and check_password_hash = check_tagged and d' = db_ann]
  from T s c obtain u where u: "users db_ann = users db_empty @ [u]"
    and lg: "\<forall>e. py_lower e = py_lower (su_email form_ann) \<longrightarrow>
       login check_tagged True \<lparr>li_email = e, li_password = su_password form_ann\<rparr> db_ann = LoggedIn u"
    by blast
  from u have "u = \<lparr>u_id = 1, email = ''ann@example.com'', password_hash = ''h:secret1''\<rparr>"
    by (simp add: db_ann_def db_empty_def)
  with lg l have 1: "login check_tagged True
      \<lparr>li_email = ''ANN@example.com'', li_password = su_password form_ann\<rparr> db_ann =
     LoggedIn \<lparr>u_id = 1, email = ''ann@example.com'', password_hash = ''h:secret1''\<rparr>"
    by blast
  have p: "su_password form_ann = ''secret1''" by (simp add: form_ann_def)
  from T e have 2: "emails_lowercase (snd (signup hash_tagged True form_ann db_empty))" by blast
  from T q have 3: "emails_unique (snd (signup hash_tagged True form_ann db_empty))" by blast
  have q2: "emails_unique db_ann_bob"
    by (simp add: emails_unique_def db_ann_bob_def user_ann_def user_bob_def)
  have m: "user_ann \<in> set (users db_ann_bob)" by (simp add: db_ann_bob_def)
  have l2: "py_lower ''ANN@example.com'' = email user_ann"
    unfolding user_ann_def by code_simp
  have c2: "check_tagged (password_hash user_ann) ''secret1''"
    by (simp add: check_tagged_def user_ann_def)
  note T2 = signup_lowercases_login_any_case
    [where d = db_ann_bob and check_password_hash = check_tagged and v = user_ann
       and addr = "''ANN@example.com''" and p = "''secret1''"]
  from T2 q2 m l2 have "login check_tagged True
      \<lparr>li_email = ''ANN@example.com'', li_password = ''secret1''\<rparr> db_ann_bob =
      (if check_tagged (password_hash user_ann) ''secret1'' then LoggedIn user_ann
       else InvalidCredentials)"
    by blast
  with c2 have 4: "login check_tagged True
      \<lparr>li_email = ''ANN@example.com'', li_password = ''secret1''\<rparr> db_ann_bob = LoggedIn user_ann"
    by simp
  note T3 = signup_lowercases_login_any_case
    [where d = db_ann_bob and check_password_hash = check_tagged and ok = True
       and lf = "\<lparr>li_email = ''ANN@example.com'', li_password = ''secret1''\<rparr>" and v' = user_ann]
  from T3 4 have 5: "email user_ann = py_lower ''ANN@example.com''" by simp
  show ?thesis
    using s c e q l 1[unfolded p] 2 3 q2 m l2 4 5 c2 by (intro conjI)
qed

section \<open>Facts about the loops\<close>

lemma detail_loop_length:
  "detail_loop body rs w = (out, w') \<Longrightarrow> length out \<le> length rs"
proof (induction rs arbitrary: w out w')
  case Nil then show ?case by simp
next
  case (Cons r rs)
  then show ?case
    by (fastforce split: prod.splits option.splits)
qed

lemma detail_loop_keys:
  assumes b: "\<And>r w r' w1. body r w = (Some r', w1) \<Longrightarrow> f r' = f r"
    and "detail_loop body rs w = (out, w')"
  shows "set (map f out) \<subseteq> set (map f rs)"
    and "distinct (map f rs) \<Longrightarrow> distinct (map f out)"
    and "sorted_wrt P (map f rs) \<Longrightarrow> sorted_wrt P (map f out)"
  using assms(2)
proof (induction rs arbitrary: w out w')
  case Nil
  { case 1 then show ?case by simp }
  { case 2 then show ?case by simp }
  { case 3 then show ?case by simp }
next
  case (Cons r rs)
  { case 1
    then show ?case using Cons.IH(1) b
      by (fastforce split: prod.splits option.splits) }
  { case 2
    then show ?case using Cons.IH(1,2) b
      by (fastforce split: prod.splits option.splits) }
  { case 3
    then show ?case using Cons.IH(1,3) b
      by (fastforce split: prod.splits option.splits) }
qed

lemma detail_loop_all:
  assumes b: "\<And>r w r' w1. body r w = (Some r', w1) \<Longrightarrow> Q r'"
    and "detail_loop body rs w = (out, w')"
  shows "\<forall>r\<in>set out. Q r"
  using assms(2)
proof (induction rs arbitrary: w out w')
  case Nil then show ?case by simp
next
  case (Cons r rs)
  then show ?case using b by (fastforce split: prod.splits option.splits)
qed

lemma detail_loop_world:
  assumes b: "\<And>r w x w1. body r w = (x, w1) \<Longrightarrow> \<exists>qs. w1 = w @ qs \<and> length qs \<le> 1 \<and> list_all is_information qs"
    and "detail_loop body rs w = (out, w')"
  shows "\<exists>qs. w' = w @ qs \<and> length qs \<le> length rs \<and> list_all is_information qs"
  using assms(2)
proof (induction rs arbitrary: w out w')
  case Nil then show ?case by simp
next
  case (Cons r rs)
  obtain x w1 where x: "body r w = (x, w1)" by (cases "body r w")
  obtain o2 w2 where l: "detail_loop body rs w1 = (o2, w2)" by (cases "detail_loop body rs w1")
  from b[OF x] obtain q1 where q1: "w1 = w @ q1" "length q1 \<le> 1" "list_all is_information q1" by blast
  from Cons.IH[OF l] obtain q2 where q2: "w2 = w1 @ q2" "length q2 \<le> length rs" "list_all is_information q2" by blast
  have "w' = w2" using Cons.prems x l by (auto split: option.splits)
  then have "w' = w @ (q1 @ q2)" using q1 q2 by simp
  moreover have "length (q1 @ q2) \<le> length (r # rs)" using q1 q2 by simp
  moreover have "list_all is_information (q1 @ q2)" using q1 q2 by simp
  ultimately show ?case by blast
qed

lemma agg_inv_empty: "agg_inv agg_empty"
  by (simp add: agg_inv_def agg_empty_def)

lemma map_of_None_iff: "map_of xs k = None \<longleftrightarrow> k \<notin> fst ` set xs"
  by (simp add: map_of_eq_None_iff)

lemma add_recipes_inv_count:
  "agg_inv a \<Longrightarrow>
   agg_inv (add_recipes rs a) \<and>
   (i \<noteq> 0 \<longrightarrow> count_in (ingredient_match_count (add_recipes rs a)) i =
      count_in (ingredient_match_count a) i + occurrences i rs)"
proof (induction rs arbitrary: a)
  case Nil
  then show ?case by (simp add: occurrences_def)
next
  case (Cons r rs)
  show ?case
  proof (cases "rid r")
    case None
    then show ?thesis using Cons.IH[OF Cons.prems] by (simp add: occurrences_def)
  next
    case (Some k)
    show ?thesis
    proof (cases "k = 0")
      case True
      then show ?thesis using Some Cons.IH[OF Cons.prems] by (auto simp: occurrences_def)
    next
      case False
      define a1 where "a1 = (if map_of (all_recipes a) k = None
                       then a\<lparr>all_recipes := all_recipes a @ [(k, r)],
                              ingredient_match_count := (ingredient_match_count a)(k \<mapsto> 0)\<rparr>
                       else a)"
      have inv1: "agg_inv a1"
        using Cons.prems Some False
        by (auto simp: a1_def agg_inv_def map_of_None_iff)
      have c1: "count_in (ingredient_match_count a1) j = count_in (ingredient_match_count a) j" for j
        using Cons.prems
        by (auto simp: a1_def agg_inv_def map_of_None_iff count_in_def split: option.splits)
      have "k \<in> dom (ingredient_match_count a1)"
        using inv1 Cons.prems by (auto simp: a1_def agg_inv_def map_of_None_iff)
      then obtain c where c: "ingredient_match_count a1 k = Some c" by auto
      define a2 where "a2 = a1\<lparr>ingredient_match_count := (ingredient_match_count a1)(k \<mapsto> c + 1)\<rparr>"
      have inv2: "agg_inv a2"
        using inv1 c by (auto simp: a2_def agg_inv_def)
      have c2: "count_in (ingredient_match_count a2) j =
                count_in (ingredient_match_count a) j + (if j = k then 1 else 0)" for j
        using c c1[of j] by (auto simp: a2_def count_in_def)
      have step: "add_recipes (r # rs) a = add_recipes rs a2"
        using Some False c by (simp add: a1_def[symmetric] a2_def Let_def)
      have occ: "occurrences i (r # rs) = (if i = k then 1 else 0) + occurrences i rs"
        using Some by (auto simp: occurrences_def)
      show ?thesis
        unfolding step occ using Cons.IH[OF inv2, of ] c2[of i] by simp
    qed
  qed
qed

lemma collect_matches_inv_count:
  "agg_inv a \<Longrightarrow> collect_matches api ings a w = (a', w') \<Longrightarrow>
   agg_inv a' \<and>
   (i \<noteq> 0 \<longrightarrow> count_in (ingredient_match_count a') i =
      count_in (ingredient_match_count a) i +
      sum_list (map (occurrences i) (search_responses api ings w))) \<and>
   w' = w @ map FindByIngredients ings"
proof (induction ings arbitrary: a w)
  case Nil
  then show ?case by simp
next
  case (Cons ing ings)
  obtain x w1 where x: "get_findByIngredients api ing w = (x, w1)"
    by (cases "get_findByIngredients api ing w")
  have w1: "w1 = w @ [FindByIngredients ing]" using x by (simp add: get_findByIngredients_def)
  show ?case
  proof (cases x)
    case (Inl e)
    then have "collect_matches api ings a w1 = (a', w')" using Cons.prems(2) x by simp
    from Cons.IH[OF Cons.prems(1) this] show ?thesis
      using x Inl w1 by (simp add: occurrences_def)
  next
    case (Inr rs)
    then have c: "collect_matches api ings (add_recipes rs a) w1 = (a', w')"
      using Cons.prems(2) x by simp
    note A = add_recipes_inv_count[OF Cons.prems(1), of rs i]
    from Cons.IH[OF _ c] A show ?thesis
      using x Inr w1 by simp
  qed
qed

lemma rid_set_attr [simp]: "rid (set_attr r k v) = rid r"
  by (simp add: set_attr_def)

lemma rid_enrich_exact [simp]: "rid (enrich_exact r info) = rid r"
  by (simp add: enrich_exact_def)

lemma rid_enrich [simp]: "rid (enrich r info) = rid r"
  by (simp add: enrich_def Let_def)

lemma or_body_rid:
  "or_body to_int api max_time cuisine dish_type r w = (Some r', w1) \<Longrightarrow> rid r' = rid r"
  by (auto simp: or_body_def split: option.splits prod.splits sum.splits bool.splits)

lemma exact_body_rid: "exact_body api r w = (Some r', w1) \<Longrightarrow> rid r' = rid r"
  by (auto simp: exact_body_def split: option.splits prod.splits sum.splits)

lemma fallback_body_rid: "fallback_body api imc r w = (Some r', w1) \<Longrightarrow> rid r' = rid r"
  by (auto simp: fallback_body_def split: option.splits prod.splits sum.splits)

lemma or_body_world:
  "or_body to_int api max_time cuisine dish_type r w = (x, w1) \<Longrightarrow>
   \<exists>qs. w1 = w @ qs \<and> length qs \<le> 1 \<and> list_all is_information qs"
  by (auto simp: or_body_def get_information_def split: option.splits prod.splits sum.splits bool.splits)

lemma exact_body_world:
  "exact_body api r w = (x, w1) \<Longrightarrow>
   \<exists>qs. w1 = w @ qs \<and> length qs \<le> 1 \<and> list_all is_information qs"
  by (auto simp: exact_body_def get_information_def split: option.splits prod.splits sum.splits)

lemma fallback_body_world:
  "fallback_body api imc r w = (x, w1) \<Longrightarrow>
   \<exists>qs. w1 = w @ qs \<and> length qs \<le> 1 \<and> list_all is_information qs"
  by (auto simp: fallback_body_def get_information_def split: option.splits prod.splits sum.splits)

lemma match_count_of_rid:
  "rid r' = rid r \<Longrightarrow> match_count_of imc r' = match_count_of imc r"
  by (simp add: match_count_of_def)

lemma sorted_by_match_count:
  "sorted_wrt (\<lambda>x y. match_count_of imc y \<le> match_count_of imc x) (sort_by_match_count imc rs)"
proof -
  have "sorted (map (\<lambda>r. - int (match_count_of imc r)) (sort_by_match_count imc rs))"
    unfolding sort_by_match_count_def by (rule sorted_sort_key)
  then show ?thesis by (simp add: sorted_map)
qed

lemma py_take_prefix: "\<exists>n. py_take num xs = take n xs"
  by (auto simp: py_take_def)

lemma length_py_take: "0 \<le> num \<Longrightarrow> length (py_take num xs) \<le> nat num"
  by (simp add: py_take_def)

lemma agg_inv_rids:
  assumes i: "agg_inv a"
  shows "distinct (map rid (map snd (all_recipes a)))"
    and "\<forall>r\<in>set (map snd (all_recipes a)). rid r \<noteq> None"
proof -
  have e: "map rid (map snd (all_recipes a)) = map Some (map fst (all_recipes a))"
    using i by (auto simp: agg_inv_def)
  have "distinct (map Some (map fst (all_recipes a)))"
    using i by (simp only: distinct_map agg_inv_def) simp
  then show "distinct (map rid (map snd (all_recipes a)))" by (simp only: e)
  show "\<forall>r\<in>set (map snd (all_recipes a)). rid r \<noteq> None"
    using i by (auto simp: agg_inv_def)
qed

lemma get_recipes_OR:
  assumes "truthy_str api_key"
    and "get_recipes to_int api_key api ingredients max_time cuisine num ''OR'' dish_type low w = (res, w')"
    and "collect_matches api (ingredients_list ingredients) agg_empty w = (a, w1)"
  shows "\<exists>out. res = Inr out \<and>
     detail_loop (or_body to_int api max_time cuisine dish_type)
       (py_take num (sort_by_match_count (ingredient_match_count a) (map snd (all_recipes a)))) w1 =
       (out, w')"
  using assms by (auto simp: get_recipes_def split: prod.splits)

section \<open>The searches run on the concrete service\<close>

lemma rid_AB [simp]: "rid recipe_A = Some 1" "rid recipe_B = Some 2"
  by (simp_all add: recipe_A_def recipe_B_def)

lemma il_egg_rice: "ingredients_list ''egg, rice'' = [''egg'', ''rice'']"
  by code_simp

lemma api_egg_rice_sel:
  "findByIngredients api_egg_rice w ''egg'' = Inr [recipe_B, recipe_A]"
  "findByIngredients api_egg_rice w ''rice'' = Inr [recipe_A]"
  "information api_egg_rice w i = Inl (RequestException ''timed out'')"
  "complexSearch api_egg_rice w params = Inr (Some [recipe_A, recipe_B])"
  by (simp_all add: api_egg_rice_def)

lemma collect_egg_rice:
  "collect_matches api_egg_rice [''egg'', ''rice''] agg_empty [] =
     (\<lparr>all_recipes = [(2, recipe_B), (1, recipe_A)],
       ingredient_match_count = [2 \<mapsto> 1, 1 \<mapsto> 2]\<rparr>,
      [FindByIngredients ''egg'', FindByIngredients ''rice''])"
  by (simp add: api_egg_rice_sel agg_empty_def get_findByIngredients_def Let_def numeral_2_eq_2)

lemma or_egg_rice:
  "get_recipes int_choices (Some ''key'') api_egg_rice ''egg, rice'' None None 30 ''OR'' None False [] =
     (Inr [recipe_A, recipe_B],
      [FindByIngredients ''egg'', FindByIngredients ''rice'', Information 1, Information 2])"
  by (simp add: get_recipes_def truthy_str_def il_egg_rice collect_egg_rice
      sort_by_match_count_def match_count_of_def py_take_def or_body_def get_information_def
      api_egg_rice_sel del: collect_matches.simps)

lemma distinct_map_sort_key: "distinct (map f xs) \<Longrightarrow> distinct (map f (sort_key k xs))"
  by (simp add: distinct_map)

section \<open>Ranking and union in inclusive mode\<close>

text \<open>
  C3. In inclusive mode (search type \<open>OR\<close>) the list \<open>get_recipes\<close> returns is sorted
  non-increasingly by match count, after the enrichment and filter pass: for positions
  \<open>i < j\<close> of the output the match count at \<open>i\<close> is at least the one at \<open>j\<close>. The
  match count of a recipe is the sort key of the source, read from the dict the
  aggregation loop has built. This holds for every ingredient list, the empty one included.
\<close>

theorem or_results_sorted_by_match_count:
  "truthy_str api_key \<and>
   get_recipes to_int api_key api ingredients max_time cuisine num ''OR'' dish_type low_ingredient w =
     (Inr out, w') \<and>
   collect_matches api (ingredients_list ingredients) agg_empty w = (a, w1) \<longrightarrow>
   (\<forall>i j. i < j \<and> j < length out \<longrightarrow>
      match_count_of (ingredient_match_count a) (out ! j) \<le>
      match_count_of (ingredient_match_count a) (out ! i))"
proof (intro impI, elim conjE)
  assume k: "truthy_str api_key"
    and g: "get_recipes to_int api_key api ingredients max_time cuisine num ''OR'' dish_type low_ingredient w =
     (Inr out, w')"
    and c: "collect_matches api (ingredients_list ingredients) agg_empty w = (a, w1)"
  let ?imc = "ingredient_match_count a"
  let ?P = "\<lambda>x y :: nat. y \<le> x"
  let ?rs = "py_take num (sort_by_match_count ?imc (map snd (all_recipes a)))"
  from get_recipes_OR[OF k g c]
  have d: "detail_loop (or_body to_int api max_time cuisine dish_type) ?rs w1 = (out, w')" by simp
  obtain n where n: "?rs = take n (sort_by_match_count ?imc (map snd (all_recipes a)))"
    using py_take_prefix by blast
  have "sorted_wrt (\<lambda>x y. match_count_of ?imc y \<le> match_count_of ?imc x) ?rs"
    unfolding n by (intro sorted_wrt_take sorted_by_match_count)
  then have "sorted_wrt ?P (map (match_count_of ?imc) ?rs)"
    by (simp add: sorted_wrt_map)
  then have "sorted_wrt ?P (map (match_count_of ?imc) out)"
    by (rule detail_loop_keys(3)[OF _ d, rotated]) (auto dest: or_body_rid intro: match_count_of_rid)
  then have "sorted_wrt (\<lambda>x y. match_count_of ?imc y \<le> match_count_of ?imc x) out"
    by (simp add: sorted_wrt_map)
  then show "\<forall>i j. i < j \<and> j < length out \<longrightarrow>
      match_count_of ?imc (out ! j) \<le> match_count_of ?imc (out ! i)"
    by (simp add: sorted_wrt_iff_nth_less)
qed

theorem or_results_sorted_by_match_count_witness:
  "truthy_str (Some ''key'') \<and>
   get_recipes int_choices (Some ''key'') api_egg_rice ''egg, rice'' None None 30 ''OR'' None False [] =
     (Inr [recipe_A, recipe_B],
      [FindByIngredients ''egg'', FindByIngredients ''rice'', Information 1, Information 2]) \<and>
   collect_matches api_egg_rice (ingredients_list ''egg, rice'') agg_empty [] =
     (\<lparr>all_recipes = [(2, recipe_B), (1, recipe_A)],
       ingredient_match_count = [2 \<mapsto> 1, 1 \<mapsto> 2]\<rparr>,
      [FindByIngredients ''egg'', FindByIngredients ''rice'']) \<and>
   match_count_of [2 \<mapsto> 1, 1 \<mapsto> 2] recipe_B \<le> match_count_of [2 \<mapsto> 1, 1 \<mapsto> 2] recipe_A"
proof -
  have k: "truthy_str (Some ''key'')" by (simp add: truthy_str_def)
  have c: "collect_matches api_egg_rice (ingredients_list ''egg, rice'') agg_empty [] =
     (\<lparr>all_recipes = [(2, recipe_B), (1, recipe_A)],
       ingredient_match_count = [2 \<mapsto> 1, 1 \<mapsto> 2]\<rparr>,
      [FindByIngredients ''egg'', FindByIngredients ''rice''])"
    by (simp only: il_egg_rice collect_egg_rice)
  from or_results_sorted_by_match_count
    [where to_int = int_choices and api_key = "Some ''key''" and api = api_egg_rice and ingredients = "''egg, rice''"
       and max_time = None and cuisine = None and num = 30 and dish_type = None
       and low_ingredient = False and w = "[]" and out = "[recipe_A, recipe_B]"
       and w' = "[FindByIngredients ''egg'', FindByIngredients ''rice'', Information 1, Information 2]"
       and a = "\<lparr>all_recipes = [(2, recipe_B), (1, recipe_A)],
                 ingredient_match_count = [2 \<mapsto> 1, 1 \<mapsto> 2]\<rparr>"
       and ?w1.0 = "[FindByIngredients ''egg'', FindByIngredients ''rice'']"]
    k or_egg_rice c
  have "\<forall>i j. i < j \<and> j < length [recipe_A, recipe_B] \<longrightarrow>
      match_count_of [2 \<mapsto> 1, 1 \<mapsto> 2] ([recipe_A, recipe_B] ! j) \<le>
      match_count_of [2 \<mapsto> 1, 1 \<mapsto> 2] ([recipe_A, recipe_B] ! i)"
    by simp
  from this[rule_format, of 0 1]
  have "match_count_of [2 \<mapsto> 1, 1 \<mapsto> 2] recipe_B \<le> match_count_of [2 \<mapsto> 1, 1 \<mapsto> 2] recipe_A"
    by simp
  with k or_egg_rice c show ?thesis by blast
qed

text \<open>
  C5. In inclusive mode the list \<open>get_recipes\<close> returns holds each recipe id at most once:
  every returned recipe has an id, and the ids are pairwise distinct.
\<close>

theorem or_results_ids_distinct:
  "truthy_str api_key \<and>
   get_recipes to_int api_key api ingredients max_time cuisine num ''OR'' dish_type low_ingredient w =
     (Inr out, w') \<longrightarrow>
   distinct (map rid out) \<and> (\<forall>r\<in>set out. rid r \<noteq> None)"
proof (intro impI, elim conjE)
  assume k: "truthy_str api_key"
    and g: "get_recipes to_int api_key api ingredients max_time cuisine num ''OR'' dish_type low_ingredient w =
     (Inr out, w')"
  obtain a w1 where c: "collect_matches api (ingredients_list ingredients) agg_empty w = (a, w1)"
    by (cases "collect_matches api (ingredients_list ingredients) agg_empty w")
  let ?imc = "ingredient_match_count a"
  let ?all = "map snd (all_recipes a)"
  let ?rs = "py_take num (sort_by_match_count ?imc ?all)"
  from get_recipes_OR[OF k g c]
  have d: "detail_loop (or_body to_int api max_time cuisine dish_type) ?rs w1 = (out, w')" by simp
  have inv: "agg_inv a" using collect_matches_inv_count[OF agg_inv_empty c] by simp
  obtain n where n: "?rs = take n (sort_by_match_count ?imc ?all)"
    using py_take_prefix by blast
  have ds: "distinct (map rid (sort_by_match_count ?imc ?all))"
    unfolding sort_by_match_count_def by (rule distinct_map_sort_key[OF agg_inv_rids(1)[OF inv]])
  have "distinct (map rid ?rs)"
    unfolding n using ds by (simp add: take_map[symmetric])
  then have 1: "distinct (map rid out)"
    by (rule detail_loop_keys(2)[OF _ d, rotated]) (auto dest: or_body_rid)
  have "set (map rid out) \<subseteq> set (map rid ?rs)"
    by (rule detail_loop_keys(1)[OF _ d]) (auto dest: or_body_rid)
  also have "\<dots> \<subseteq> set (map rid ?all)"
  proof -
    have "set (take n (sort_by_match_count ?imc ?all)) \<subseteq> set ?all"
      using set_take_subset[of n "sort_by_match_count ?imc ?all"]
      by (simp add: sort_by_match_count_def)
    then show ?thesis unfolding n by (simp only: set_map image_mono)
  qed
  finally have "\<forall>r\<in>set out. rid r \<in> set (map rid ?all)" by auto
  then have 2: "\<forall>r\<in>set out. rid r \<noteq> None"
    using agg_inv_rids(2)[OF inv] by (metis (no_types, lifting) imageE list.set_map)
  from 1 2 show "distinct (map rid out) \<and> (\<forall>r\<in>set out. rid r \<noteq> None)" by simp
qed

theorem or_results_ids_distinct_witness:
  "truthy_str (Some ''key'') \<and>
   get_recipes int_choices (Some ''key'') api_egg_rice ''egg, rice'' None None 30 ''OR'' None False [] =
     (Inr [recipe_A, recipe_B],
      [FindByIngredients ''egg'', FindByIngredients ''rice'', Information 1, Information 2]) \<and>
   distinct (map rid [recipe_A, recipe_B])"
proof -
  have k: "truthy_str (Some ''key'')" by (simp add: truthy_str_def)
  from or_results_ids_distinct
    [where to_int = int_choices and api_key = "Some ''key''" and api = api_egg_rice and ingredients = "''egg, rice''"
       and max_time = None and cuisine = None and num = 30 and dish_type = None
       and low_ingredient = False and w = "[]" and out = "[recipe_A, recipe_B]"
       and w' = "[FindByIngredients ''egg'', FindByIngredients ''rice'', Information 1, Information 2]"]
    k or_egg_rice
  have "distinct (map rid [recipe_A, recipe_B])" by blast
  with k or_egg_rice show ?thesis by blast
qed

section \<open>Match counts\<close>

lemma sum_list_indicator:
  "\<forall>x\<in>set xs. f x = (if P x then 1 else (0::nat)) \<Longrightarrow> sum_list (map f xs) = length (filter P xs)"
  by (induction xs) auto

lemma occurrences_0_iff: "occurrences i rs = 0 \<longleftrightarrow> Some i \<notin> rid ` set rs"
proof -
  have "occurrences i rs = 0 \<longleftrightarrow> (\<forall>r\<in>set rs. rid r \<noteq> Some i)"
    by (simp add: occurrences_def filter_empty_conv)
  also have "\<dots> \<longleftrightarrow> Some i \<notin> rid ` set rs" by force
  finally show ?thesis .
qed

lemma occurrences_le_1:
  "occurrences i rs \<le> 1 \<Longrightarrow> occurrences i rs = (if Some i \<in> rid ` set rs then 1 else 0)"
  using occurrences_0_iff[of i rs] by (cases "occurrences i rs = 0") auto

lemma count_in_sum_occurrences:
  assumes "collect_matches api ings agg_empty w = (a, w')" and "i \<noteq> 0"
  shows "count_in (ingredient_match_count a) i =
         sum_list (map (occurrences i) (search_responses api ings w))"
  using collect_matches_inv_count[OF agg_inv_empty assms(1), of i] assms(2)
  by (simp add: count_in_def agg_empty_def)

lemma zero_never_recorded:
  assumes "collect_matches api ings agg_empty w = (a, w')"
  shows "ingredient_match_count a 0 = None"
proof -
  have inv: "agg_inv a" using collect_matches_inv_count[OF agg_inv_empty assms] by simp
  then have "0 \<notin> fst ` set (all_recipes a)" by (auto simp: agg_inv_def)
  with inv have "0 \<notin> dom (ingredient_match_count a)" by (simp add: agg_inv_def)
  then show ?thesis by (simp add: domIff)
qed

text \<open>
  C4, as amended. After the aggregation loop of inclusive mode, the match count recorded
  for a recipe id other than 0 is the number of per-ingredient searches whose response
  held that id, where one search is made for each entry of the ingredient list, so that an
  ingredient listed twice is searched twice and counted twice; this is stated for an id
  that no single response holds more than once. An entry whose id is missing or 0 is
  skipped: nothing is recorded for the id 0.
\<close>

theorem match_count_counts_searches:
  "collect_matches api (ingredients_list ingredients) agg_empty w = (a, w') \<longrightarrow>
     ingredient_match_count a 0 = None \<and>
     (i \<noteq> 0 \<and>
      (\<forall>resp\<in>set (search_responses api (ingredients_list ingredients) w).
          occurrences i resp \<le> 1) \<longrightarrow>
        count_in (ingredient_match_count a) i =
          length (filter (\<lambda>resp. Some i \<in> rid ` set resp)
                    (search_responses api (ingredients_list ingredients) w)))"
proof (intro impI conjI; (elim conjE)?)
  assume c: "collect_matches api (ingredients_list ingredients) agg_empty w = (a, w')"
  show "ingredient_match_count a 0 = None" by (rule zero_never_recorded[OF c])
  let ?rs = "search_responses api (ingredients_list ingredients) w"
  assume i: "i \<noteq> 0" and o: "\<forall>resp\<in>set ?rs. occurrences i resp \<le> 1"
  have "sum_list (map (occurrences i) ?rs) = length (filter (\<lambda>resp. Some i \<in> rid ` set resp) ?rs)"
    using o by (intro sum_list_indicator ballI occurrences_le_1) blast
  then show "count_in (ingredient_match_count a) i =
      length (filter (\<lambda>resp. Some i \<in> rid ` set resp) ?rs)"
    using count_in_sum_occurrences[OF c i] by simp
qed

lemma il_egg_egg: "ingredients_list ''egg, egg'' = [''egg'', ''egg'']"
  by code_simp

lemma api_egg_only_sel:
  "findByIngredients api_egg_only w ''egg'' = Inr [recipe_A]"
  by (simp add: api_egg_only_def)

lemma collect_egg_egg:
  "collect_matches api_egg_only [''egg'', ''egg''] agg_empty [] =
     (\<lparr>all_recipes = [(1, recipe_A)], ingredient_match_count = [1 \<mapsto> 2]\<rparr>,
      [FindByIngredients ''egg'', FindByIngredients ''egg''])"
  by (simp add: api_egg_only_sel agg_empty_def get_findByIngredients_def Let_def numeral_2_eq_2)

lemma responses_egg_rice:
  "search_responses api_egg_rice [''egg'', ''rice''] [] = [[recipe_B, recipe_A], [recipe_A]]"
  by (simp add: api_egg_rice_sel get_findByIngredients_def)

theorem match_count_counts_searches_witness:
  "collect_matches api_egg_rice (ingredients_list ''egg, rice'') agg_empty [] =
     (\<lparr>all_recipes = [(2, recipe_B), (1, recipe_A)],
       ingredient_match_count = [2 \<mapsto> 1, 1 \<mapsto> 2]\<rparr>,
      [FindByIngredients ''egg'', FindByIngredients ''rice'']) \<and>
   (1::int) \<noteq> 0 \<and>
   search_responses api_egg_rice (ingredients_list ''egg, rice'') [] =
     [[recipe_B, recipe_A], [recipe_A]] \<and>
   occurrences 1 [recipe_B, recipe_A] = 1 \<and> occurrences 1 [recipe_A] = 1 \<and>
   count_in [2 \<mapsto> 1, 1 \<mapsto> 2] 1 = 2 \<and>
   length (filter (\<lambda>resp. Some 1 \<in> rid ` set resp) [[recipe_B, recipe_A], [recipe_A]]) = 2"
proof -
  have c: "collect_matches api_egg_rice (ingredients_list ''egg, rice'') agg_empty [] =
     (\<lparr>all_recipes = [(2, recipe_B), (1, recipe_A)],
       ingredient_match_count = [2 \<mapsto> 1, 1 \<mapsto> 2]\<rparr>,
      [FindByIngredients ''egg'', FindByIngredients ''rice''])"
    by (simp only: il_egg_rice collect_egg_rice)
  have s: "search_responses api_egg_rice (ingredients_list ''egg, rice'') [] =
     [[recipe_B, recipe_A], [recipe_A]]"
    by (simp only: il_egg_rice responses_egg_rice)
  have o1: "occurrences 1 [recipe_B, recipe_A] = 1" and o2: "occurrences 1 [recipe_A] = 1"
    by (simp_all add: occurrences_def)
  have o: "\<forall>resp\<in>set (search_responses api_egg_rice (ingredients_list ''egg, rice'') []).
      occurrences 1 resp \<le> 1"
    unfolding s using o1 o2 by simp
  have n: "count_in [2 \<mapsto> 1, 1 \<mapsto> 2] 1 = 2" by (simp add: count_in_def)
  have z: "(1::int) \<noteq> 0" by simp
  from match_count_counts_searches
    [where api = api_egg_rice and ingredients = "''egg, rice''" and w = "[]" and i = 1
       and a = "\<lparr>all_recipes = [(2, recipe_B), (1, recipe_A)],
                 ingredient_match_count = [2 \<mapsto> 1, 1 \<mapsto> 2]\<rparr>"
       and w' = "[FindByIngredients ''egg'', FindByIngredients ''rice'']"]
    c o z
  have "count_in [2 \<mapsto> 1, 1 \<mapsto> 2] 1 =
     length (filter (\<lambda>resp. Some 1 \<in> rid ` set resp)
       (search_responses api_egg_rice (ingredients_list ''egg, rice'') []))"
    by simp
  then have len: "length (filter (\<lambda>resp. Some 1 \<in> rid ` set resp) [[recipe_B, recipe_A], [recipe_A]]) = 2"
    unfolding s n by simp
  show ?thesis by (intro conjI c s o1 o2 n z len)
qed

text \<open>
  The claim as stated fails: for the input \<open>egg, egg\<close> there is one distinct ingredient,
  its response holds recipe 1 once, and the recorded match count of recipe 1 is 2.
\<close>

theorem match_count_repeated_ingredient_counterexample:
  "fst (collect_matches api_egg_only (ingredients_list ''egg, egg'') agg_empty []) =
     \<lparr>all_recipes = [(1, recipe_A)], ingredient_match_count = [1 \<mapsto> 2]\<rparr> \<and>
   remdups (ingredients_list ''egg, egg'') = [''egg''] \<and>
   findByIngredients api_egg_only [] ''egg'' = Inr [recipe_A]"
  by (simp add: il_egg_egg collect_egg_egg api_egg_only_sel del: collect_matches.simps)

section \<open>The result cap\<close>

lemma detail_loop_keeps_all:
  assumes b: "\<And>r w. fst (body r w) \<noteq> None"
    and "detail_loop body rs w = (out, w')"
  shows "length out = length rs"
  using assms(2)
proof (induction rs arbitrary: w out w')
  case Nil then show ?case by simp
next
  case (Cons r rs)
  obtain x w1 where x: "body r w = (x, w1)" by (cases "body r w")
  with b[of r w] obtain r' where r': "x = Some r'" by auto
  obtain o2 w2 where l: "detail_loop body rs w1 = (o2, w2)" by (cases "detail_loop body rs w1")
  from Cons.prems x r' l have "out = r' # o2" by simp
  with Cons.IH[OF l] show ?case by simp
qed

lemma exact_body_keeps: "fst (exact_body api r w) \<noteq> None"
  by (auto simp: exact_body_def split: option.splits prod.splits sum.splits)

lemma get_recipes_exact:
  assumes "truthy_str api_key" and "search_type \<noteq> ''OR''"
    and "get_recipes to_int api_key api ingredients max_time cuisine num search_type dish_type low w =
           (Inr out, w')"
  shows "\<exists>params results.
     complexSearch api w params = Inr results \<and>
     detail_loop (exact_body api) (case results of None \<Rightarrow> [] | Some rs \<Rightarrow> rs)
       (w @ [ComplexSearch params]) = (out, w') \<and>
     includeIngredients params = ingredients \<and> number params = num"
proof -
  define mt where
    "mt = (if truthy_str max_time then map_sum id Some (to_int (the max_time)) else Inr None)"
  have g: "(case mt of
           Inl e \<Rightarrow> (Inl e, w)
         | Inr max_ready \<Rightarrow>
             (case get_complexSearch api
                     \<lparr>includeIngredients = ingredients, number = num, maxReadyTime = max_ready,
                      cs_cuisine = (if truthy_str cuisine then cuisine else None),
                      cs_type = (if truthy_str dish_type then dish_type else None),
                      minIngredients = (if low then Some 1 else None),
                      maxIngredients = (if low then Some 5 else None)\<rparr> w of
                (Inl (HTTPError sc m), w1) \<Rightarrow> (Inl (HTTPError sc m), w1)
              | (Inl e, w1) \<Rightarrow> (Inl (RuntimeError (''Error fetching recipes: '' @ exn_str e)), w1)
              | (Inr results, w1) \<Rightarrow>
                  (case detail_loop (exact_body api)
                          (case results of None \<Rightarrow> [] | Some rs \<Rightarrow> rs) w1 of
                     (recipes_with_info, w2) \<Rightarrow> (Inr recipes_with_info, w2)))) = (Inr out, w')"
    using assms unfolding get_recipes_def mt_def by simp
  then obtain mr where mr: "mt = Inr mr" by (cases mt) auto
  define params where "params =
     \<lparr>includeIngredients = ingredients, number = num, maxReadyTime = mr,
      cs_cuisine = (if truthy_str cuisine then cuisine else None),
      cs_type = (if truthy_str dish_type then dish_type else None),
      minIngredients = (if low then Some 1 else None),
      maxIngredients = (if low then Some 5 else None)\<rparr>"
  from g mr have g2: "(case get_complexSearch api params w of
                (Inl (HTTPError sc m), w1) \<Rightarrow> (Inl (HTTPError sc m), w1)
              | (Inl e, w1) \<Rightarrow> (Inl (RuntimeError (''Error fetching recipes: '' @ exn_str e)), w1)
              | (Inr results, w1) \<Rightarrow>
                  (case detail_loop (exact_body api)
                          (case results of None \<Rightarrow> [] | Some rs \<Rightarrow> rs) w1 of
                     (recipes_with_info, w2) \<Rightarrow> (Inr recipes_with_info, w2))) = (Inr out, w')"
    by (simp add: params_def)
  obtain x where x: "complexSearch api w params = x" by simp
  have gc: "get_complexSearch api params w = (x, w @ [ComplexSearch params])"
    using x by (simp add: get_complexSearch_def)
  from g2 obtain results where r: "x = Inr results"
    unfolding gc by (cases x) (auto split: exn.splits)
  from g2 have "detail_loop (exact_body api) (case results of None \<Rightarrow> [] | Some rs \<Rightarrow> rs)
       (w @ [ComplexSearch params]) = (out, w')"
    unfolding gc r by (auto split: prod.splits)
  moreover have "includeIngredients params = ingredients" "number params = num"
    by (simp_all add: params_def)
  ultimately show ?thesis using x r by blast
qed

lemma sent_append [simp]: "sent w (w @ qs) = qs"
  by (simp add: sent_def)

text \<open>
  C8, as amended. In inclusive mode, for every answer of the service and every count
  \<open>num\<close> that is not negative, the list handed to detail enrichment is cut to \<open>num\<close>
  before any detail request: at most \<open>num\<close> recipes are returned and at most \<open>num\<close>
  detail requests are sent. In exact mode \<open>num\<close> is sent to the search as its result
  count, in the first request, and the answer is not cut: as many recipes are returned as
  the answer holds.
\<close>

theorem result_cap:
  "truthy_str api_key \<and>
   get_recipes to_int api_key api ingredients max_time cuisine num search_type dish_type low_ingredient w =
     (Inr out, w') \<longrightarrow>
   (search_type = ''OR'' \<and> 0 \<le> num \<longrightarrow>
      length out \<le> nat num \<and> length (filter is_information (sent w w')) \<le> nat num) \<and>
   (search_type \<noteq> ''OR'' \<longrightarrow>
      (\<exists>params results.
          hd (sent w w') = ComplexSearch params \<and> number params = num \<and>
          complexSearch api w params = Inr results \<and>
          length out = length (case results of None \<Rightarrow> [] | Some rs \<Rightarrow> rs)))"
proof (intro impI conjI; elim conjE)
  assume k: "truthy_str api_key"
    and g: "get_recipes to_int api_key api ingredients max_time cuisine num search_type dish_type low_ingredient w =
     (Inr out, w')"
  {
    assume t: "search_type = ''OR''" and n: "0 \<le> num"
    obtain a w1 where c: "collect_matches api (ingredients_list ingredients) agg_empty w = (a, w1)"
      by (cases "collect_matches api (ingredients_list ingredients) agg_empty w")
    let ?rs = "py_take num (sort_by_match_count (ingredient_match_count a) (map snd (all_recipes a)))"
    from get_recipes_OR[OF k g[unfolded t] c]
    have d: "detail_loop (or_body to_int api max_time cuisine dish_type) ?rs w1 = (out, w')" by simp
    have w1: "w1 = w @ map FindByIngredients (ingredients_list ingredients)"
      using collect_matches_inv_count[OF agg_inv_empty c] by simp
    have len: "length ?rs \<le> nat num" using n by (rule length_py_take)
    show "length out \<le> nat num" using detail_loop_length[OF d] len by simp
    from detail_loop_world[OF _ d] or_body_world
    obtain qs where qs: "w' = w1 @ qs" "length qs \<le> length ?rs" "list_all is_information qs"
      by blast
    have "filter is_information (sent w w') = qs"
      using qs(1,3) w1 by (simp add: list_all_iff filter_id_conv comp_def)
    then show "length (filter is_information (sent w w')) \<le> nat num"
      using qs(2) len by simp
  }
  {
    assume t: "search_type \<noteq> ''OR''"
    from get_recipes_exact[OF k t g] obtain params results where
      p: "number params = num" "complexSearch api w params = Inr results"
         "includeIngredients params = ingredients"
      and d: "detail_loop (exact_body api) (case results of None \<Rightarrow> [] | Some rs \<Rightarrow> rs)
               (w @ [ComplexSearch params]) = (out, w')"
      by blast
    from detail_loop_world[OF _ d] exact_body_world
    obtain qs where qs: "w' = (w @ [ComplexSearch params]) @ qs" by blast
    have h: "hd (sent w w') = ComplexSearch params" using qs by simp
    have "length out = length (case results of None \<Rightarrow> [] | Some rs \<Rightarrow> rs)"
      by (rule detail_loop_keeps_all[OF exact_body_keeps d])
    with p h show "\<exists>params results.
          hd (sent w w') = ComplexSearch params \<and> number params = num \<and>
          complexSearch api w params = Inr results \<and>
          length out = length (case results of None \<Rightarrow> [] | Some rs \<Rightarrow> rs)"
      by blast
  }
qed

lemma il_egg: "ingredients_list ''egg'' = [''egg'']"
  by code_simp

lemma or_egg_rice_cap:
  "get_recipes int_choices (Some ''key'') api_egg_rice ''egg, rice'' None None 1 ''OR'' None False [] =
     (Inr [recipe_A],
      [FindByIngredients ''egg'', FindByIngredients ''rice'', Information 1])"
  by (simp add: get_recipes_def truthy_str_def il_egg_rice collect_egg_rice
      sort_by_match_count_def match_count_of_def py_take_def or_body_def get_information_def
      api_egg_rice_sel del: collect_matches.simps)

lemma exact_egg_rice:
  "get_recipes int_choices (Some ''key'') api_egg_rice ''egg'' None None 1 ''AND'' None False [] =
     (Inr [recipe_A, recipe_B],
      [ComplexSearch \<lparr>includeIngredients = ''egg'', number = 1, maxReadyTime = None,
                      cs_cuisine = None, cs_type = None, minIngredients = None,
                      maxIngredients = None\<rparr>,
       Information 1, Information 2])"
  by (simp add: get_recipes_def truthy_str_def get_complexSearch_def exact_body_def
      get_information_def api_egg_rice_sel)

theorem result_cap_witness:
  "truthy_str (Some ''key'') \<and> (0::int) \<le> 1 \<and> ''AND'' \<noteq> ''OR'' \<and>
   get_recipes int_choices (Some ''key'') api_egg_rice ''egg, rice'' None None 1 ''OR'' None False [] =
     (Inr [recipe_A],
      [FindByIngredients ''egg'', FindByIngredients ''rice'', Information 1]) \<and>
   length [recipe_A] \<le> nat 1 \<and>
   length (filter is_information
     (sent [] [FindByIngredients ''egg'', FindByIngredients ''rice'', Information 1])) \<le> nat 1 \<and>
   get_recipes int_choices (Some ''key'') api_egg_rice ''egg'' None None 1 ''AND'' None False [] =
     (Inr [recipe_A, recipe_B],
      [ComplexSearch \<lparr>includeIngredients = ''egg'', number = 1, maxReadyTime = None,
                      cs_cuisine = None, cs_type = None, minIngredients = None,
                      maxIngredients = None\<rparr>,
       Information 1, Information 2]) \<and>
   complexSearch api_egg_rice []
     \<lparr>includeIngredients = ''egg'', number = 1, maxReadyTime = None,
      cs_cuisine = None, cs_type = None, minIngredients = None, maxIngredients = None\<rparr> =
     Inr (Some [recipe_A, recipe_B])"
proof -
  have k: "truthy_str (Some ''key'')" by (simp add: truthy_str_def)
  have n: "(0::int) \<le> 1" by simp
  have t: "''AND'' \<noteq> ''OR''" by simp
  from result_cap
    [where to_int = int_choices and api_key = "Some ''key''" and api = api_egg_rice
       and ingredients = "''egg, rice''" and max_time = None and cuisine = None and num = 1
       and search_type = "''OR''" and dish_type = None and low_ingredient = False and w = "[]"
       and out = "[recipe_A]"
       and w' = "[FindByIngredients ''egg'', FindByIngredients ''rice'', Information 1]"]
    k n or_egg_rice_cap
  have 1: "length [recipe_A] \<le> nat 1 \<and>
     length (filter is_information
       (sent [] [FindByIngredients ''egg'', FindByIngredients ''rice'', Information 1])) \<le> nat 1"
    by blast
  from result_cap
    [where to_int = int_choices and api_key = "Some ''key''" and api = api_egg_rice
       and ingredients = "''egg''" and max_time = None and cuisine = None and num = 1
       and search_type = "''AND''" and dish_type = None and low_ingredient = False and w = "[]"
       and out = "[recipe_A, recipe_B]"
       and w' = "[ComplexSearch \<lparr>includeIngredients = ''egg'', number = 1, maxReadyTime = None,
                      cs_cuisine = None, cs_type = None, minIngredients = None,
                      maxIngredients = None\<rparr>, Information 1, Information 2]"]
    k t exact_egg_rice
  obtain params results where
    "hd (sent [] [ComplexSearch \<lparr>includeIngredients = ''egg'', number = 1, maxReadyTime = None,
                      cs_cuisine = None, cs_type = None, minIngredients = None,
                      maxIngredients = None\<rparr>, Information 1, Information 2]) = ComplexSearch params"
    "complexSearch api_egg_rice [] params = Inr results"
    by blast
  then have 2: "complexSearch api_egg_rice []
     \<lparr>includeIngredients = ''egg'', number = 1, maxReadyTime = None,
      cs_cuisine = None, cs_type = None, minIngredients = None, maxIngredients = None\<rparr> =
     Inr (Some [recipe_A, recipe_B])"
    by (simp add: api_egg_rice_sel)
  show ?thesis
    by (intro conjI k n t or_egg_rice_cap exact_egg_rice 2 1[THEN conjunct1] 1[THEN conjunct2])
qed

text \<open>
  The claim as stated fails in exact mode: with \<open>num = 1\<close> and a service that answers
  the search with two recipes, both are handed to enrichment (two detail requests) and
  both are returned.
\<close>

theorem exact_mode_not_capped_counterexample:
  "get_recipes int_choices (Some ''key'') api_egg_rice ''egg'' None None 1 ''AND'' None False [] =
     (Inr [recipe_A, recipe_B],
      [ComplexSearch \<lparr>includeIngredients = ''egg'', number = 1, maxReadyTime = None,
                      cs_cuisine = None, cs_type = None, minIngredients = None,
                      maxIngredients = None\<rparr>,
       Information 1, Information 2]) \<and>
   \<not> length [recipe_A, recipe_B] \<le> nat 1"
  by (simp add: exact_egg_rice)

section \<open>Failing detail requests\<close>

lemma length_detail_steps [simp]: "length (detail_steps body rs w) = length rs"
  by (induction rs arbitrary: w) auto

lemma detail_steps_nth:
  "k < length rs \<Longrightarrow>
   snd (detail_steps body rs w ! k) = fst (body (rs ! k) (fst (detail_steps body rs w ! k)))"
proof (induction rs arbitrary: w k)
  case Nil then show ?case by simp
next
  case (Cons r rs)
  then show ?case by (cases k) auto
qed

lemma detail_loop_steps:
  "fst (detail_loop body rs w) = List.map_filter snd (detail_steps body rs w)"
proof (induction rs arbitrary: w)
  case Nil then show ?case by (simp add: List.map_filter_simps)
next
  case (Cons r rs)
  obtain y w1 where y: "body r w = (y, w1)" by (cases "body r w")
  obtain o2 w2 where l: "detail_loop body rs w1 = (o2, w2)" by (cases "detail_loop body rs w1")
  from Cons.IH[of w1] l have "o2 = List.map_filter snd (detail_steps body rs w1)" by simp
  then show ?case using y l by (cases y) (simp_all add: List.map_filter_simps)
qed

lemma set_map_filter_snd:
  "set (List.map_filter snd xs) = {r'. \<exists>p\<in>set xs. snd p = Some r'}"
proof (induction xs)
  case Nil then show ?case by (simp add: List.map_filter_simps)
next
  case (Cons x xs)
  then show ?case by (cases "snd x") (auto simp: List.map_filter_simps)
qed

lemma set_detail_loop:
  "set (fst (detail_loop body rs w)) =
   {r'. \<exists>k<length rs. snd (detail_steps body rs w ! k) = Some r'}"
proof -
  let ?xs = "detail_steps body rs w"
  have "(\<exists>p\<in>set ?xs. snd p = Some r') \<longleftrightarrow> (\<exists>k<length ?xs. snd (?xs ! k) = Some r')" for r'
  proof
    assume "\<exists>p\<in>set ?xs. snd p = Some r'"
    then obtain p where "p \<in> set ?xs" "snd p = Some r'" by blast
    then obtain k where "k < length ?xs" "?xs ! k = p" by (auto simp: in_set_conv_nth)
    with \<open>snd p = Some r'\<close> show "\<exists>k<length ?xs. snd (?xs ! k) = Some r'" by blast
  next
    assume "\<exists>k<length ?xs. snd (?xs ! k) = Some r'"
    then obtain k where "k < length ?xs" "snd (?xs ! k) = Some r'" by blast
    then show "\<exists>p\<in>set ?xs. snd p = Some r'" using nth_mem by blast
  qed
  then show ?thesis
    by (simp add: detail_loop_steps set_map_filter_snd)
qed

lemma nth_detail_loop_all_kept:
  assumes "\<And>r h. fst (body r h) \<noteq> None" and "k < length rs"
  shows "Some (fst (detail_loop body rs w) ! k) = snd (detail_steps body rs w ! k)"
  using assms(2)
proof (induction rs arbitrary: w k)
  case Nil then show ?case by simp
next
  case (Cons r rs)
  obtain y w1 where y: "body r w = (y, w1)" by (cases "body r w")
  with assms(1)[of r w] obtain r' where r': "y = Some r'" by auto
  obtain o2 w2 where l: "detail_loop body rs w1 = (o2, w2)" by (cases "detail_loop body rs w1")
  show ?case
  proof (cases k)
    case 0 then show ?thesis using y r' l by simp
  next
    case (Suc j)
    with Cons.prems have "j < length rs" by simp
    from Cons.IH[OF this, of w1] l show ?thesis using y r' Suc by simp
  qed
qed

lemma or_body_fetch_fails:
  "rid r = Some i \<Longrightarrow> information api h i = Inl e \<Longrightarrow>
   fst (or_body to_int api max_time cuisine dish_type r h) = Some r"
  by (simp add: or_body_def get_information_def)

lemma exact_body_fetch_fails:
  "rid r = None \<or> (rid r = Some i \<and> information api h i = Inl e) \<Longrightarrow>
   fst (exact_body api r h) = Some r"
  by (auto simp: exact_body_def get_information_def)

lemma fallback_body_fetch_fails:
  "rid r = Some i \<Longrightarrow> information api h i = Inl e \<Longrightarrow> fst (fallback_body api imc r h) = None"
  by (simp add: fallback_body_def get_information_def)

lemma fallback_body_rid_fst: "fst (fallback_body api imc r h) = Some r' \<Longrightarrow> rid r' = rid r"
  using fallback_body_rid[of api imc r h r' "snd (fallback_body api imc r h)"]
  by (cases "fallback_body api imc r h") auto

lemma handed_rids_distinct:
  assumes "collect_matches api ings agg_empty w = (a, w1)"
  shows "distinct (map rid (py_take num
           (sort_by_match_count (ingredient_match_count a) (map snd (all_recipes a)))))"
proof -
  have inv: "agg_inv a" using collect_matches_inv_count[OF agg_inv_empty assms] by simp
  obtain n where n: "py_take num (sort_by_match_count (ingredient_match_count a) (map snd (all_recipes a)))
      = take n (sort_by_match_count (ingredient_match_count a) (map snd (all_recipes a)))"
    using py_take_prefix by blast
  have "distinct (map rid (sort_by_match_count (ingredient_match_count a) (map snd (all_recipes a))))"
    unfolding sort_by_match_count_def by (rule distinct_map_sort_key[OF agg_inv_rids(1)[OF inv]])
  then show ?thesis unfolding n by (simp add: take_map[symmetric])
qed

lemma get_fallback_recipes_run:
  assumes "truthy_str api_key"
    and "collect_matches api (ingredients_list ingredients) agg_empty w = (a, w1)"
  shows "get_fallback_recipes api_key api ingredients num w =
     detail_loop (fallback_body api (ingredient_match_count a))
       (py_take num (sort_by_match_count (ingredient_match_count a) (map snd (all_recipes a)))) w1"
  using assms by (simp add: get_fallback_recipes_def)

lemma get_recipes_OR_run:
  assumes "truthy_str api_key"
    and "collect_matches api (ingredients_list ingredients) agg_empty w = (a, w1)"
  shows "get_recipes to_int api_key api ingredients max_time cuisine num ''OR'' dish_type low w =
     (Inr (fst (detail_loop (or_body to_int api max_time cuisine dish_type)
       (py_take num (sort_by_match_count (ingredient_match_count a) (map snd (all_recipes a)))) w1)),
      snd (detail_loop (or_body to_int api max_time cuisine dish_type)
       (py_take num (sort_by_match_count (ingredient_match_count a) (map snd (all_recipes a)))) w1))"
  using assms by (simp add: get_recipes_def split: prod.splits)

lemma or_keeps_failed:
  assumes "truthy_str api_key"
    and "collect_matches api (ingredients_list ingredients) agg_empty w = (a, w1)"
    and "rs = py_take num (sort_by_match_count (ingredient_match_count a) (map snd (all_recipes a)))"
    and "k < length rs" and "rid (rs ! k) = Some i"
    and "information api (fst (detail_steps (or_body to_int api max_time cuisine dish_type) rs w1 ! k)) i = Inl e"
  shows "\<exists>out w'. get_recipes to_int api_key api ingredients max_time cuisine num ''OR'' dish_type low w =
            (Inr out, w') \<and> rs ! k \<in> set out"
proof -
  let ?body = "or_body to_int api max_time cuisine dish_type"
  have "snd (detail_steps ?body rs w1 ! k) = Some (rs ! k)"
    using detail_steps_nth[OF assms(4), of ?body w1] or_body_fetch_fails[OF assms(5,6)] by simp
  then have "rs ! k \<in> set (fst (detail_loop ?body rs w1))"
    using assms(4) by (auto simp: set_detail_loop)
  then show ?thesis
    using get_recipes_OR_run[OF assms(1,2), of to_int max_time cuisine num dish_type low] assms(3)
    by simp
qed

lemma fallback_drops_failed:
  assumes "truthy_str api_key"
    and "collect_matches api (ingredients_list ingredients) agg_empty w = (a, w1)"
    and "rs = py_take num (sort_by_match_count (ingredient_match_count a) (map snd (all_recipes a)))"
    and "k < length rs" and "rid (rs ! k) = Some i"
    and "information api (fst (detail_steps (fallback_body api (ingredient_match_count a)) rs w1 ! k)) i = Inl e"
  shows "\<forall>r\<in>set (fst (get_fallback_recipes api_key api ingredients num w)). rid r \<noteq> Some i"
proof
  fix r
  let ?body = "fallback_body api (ingredient_match_count a)"
  assume "r \<in> set (fst (get_fallback_recipes api_key api ingredients num w))"
  then have "r \<in> set (fst (detail_loop ?body rs w1))"
    using get_fallback_recipes_run[OF assms(1,2), of num] assms(3) by simp
  then obtain j where j: "j < length rs" "snd (detail_steps ?body rs w1 ! j) = Some r"
    by (auto simp: set_detail_loop)
  have rj: "rid r = rid (rs ! j)"
    using detail_steps_nth[OF j(1), of ?body w1] j(2) fallback_body_rid_fst by metis
  have kn: "snd (detail_steps ?body rs w1 ! k) = None"
    using detail_steps_nth[OF assms(4), of ?body w1] fallback_body_fetch_fails[OF assms(5,6)] by simp
  show "rid r \<noteq> Some i"
  proof
    assume "rid r = Some i"
    with rj assms(5) have e: "map rid rs ! j = map rid rs ! k" using j(1) assms(4) by simp
    have d: "distinct (map rid rs)" unfolding assms(3) by (rule handed_rids_distinct[OF assms(2)])
    have "j < length (map rid rs)" "k < length (map rid rs)" using j(1) assms(4) by simp_all
    with d e have "j = k" by (simp only: nth_eq_iff_index_eq)
    with j(2) kn show False by simp
  qed
qed

lemma exact_keeps_failed:
  assumes k: "truthy_str api_key" and t: "search_type \<noteq> ''OR''"
    and g: "get_recipes to_int api_key api ingredients max_time cuisine num search_type dish_type low w =
           (Inr out, w')"
    and h: "hd (sent w w') = ComplexSearch params"
    and c: "complexSearch api w params = Inr results"
    and rs: "rs = (case results of None \<Rightarrow> [] | Some xs \<Rightarrow> xs)"
    and kl: "k < length rs"
    and f: "rid (rs ! k) = None \<or>
            (rid (rs ! k) = Some i \<and>
             information api
               (fst (detail_steps (exact_body api) rs (w @ [ComplexSearch params]) ! k)) i = Inl e)"
  shows "length out = length rs \<and> out ! k = rs ! k"
proof -
  from get_recipes_exact[OF k t g] obtain params0 results0 where
    c0: "complexSearch api w params0 = Inr results0"
    and d: "detail_loop (exact_body api) (case results0 of None \<Rightarrow> [] | Some rs \<Rightarrow> rs)
               (w @ [ComplexSearch params0]) = (out, w')"
    by blast
  from detail_loop_world[OF _ d] exact_body_world
  obtain qs where qs: "w' = (w @ [ComplexSearch params0]) @ qs" by blast
  then have "hd (sent w w') = ComplexSearch params0" by simp
  with h have p: "params0 = params" by simp
  with c c0 have r: "results0 = results" by simp
  from d have d': "detail_loop (exact_body api) rs (w @ [ComplexSearch params]) = (out, w')"
    unfolding p r rs .
  have len: "length out = length rs" by (rule detail_loop_keeps_all[OF exact_body_keeps d'])
  have "Some (fst (detail_loop (exact_body api) rs (w @ [ComplexSearch params])) ! k) =
        snd (detail_steps (exact_body api) rs (w @ [ComplexSearch params]) ! k)"
    by (rule nth_detail_loop_all_kept[OF exact_body_keeps kl])
  also have "\<dots> = fst (exact_body api (rs ! k)
        (fst (detail_steps (exact_body api) rs (w @ [ComplexSearch params]) ! k)))"
    by (rule detail_steps_nth[OF kl])
  also have "\<dots> = Some (rs ! k)" using f by (intro exact_body_fetch_fails) blast
  finally have "out ! k = rs ! k" using d' by simp
  with len show ?thesis by simp
qed

lemma exact_returns:
  assumes "truthy_str api_key" and "search_type \<noteq> ''OR''"
    and "(if truthy_str max_time then map_sum id Some (to_int (the max_time)) else Inr None) = Inr mr"
    and "complexSearch api w
           \<lparr>includeIngredients = ingredients, number = num, maxReadyTime = mr,
            cs_cuisine = (if truthy_str cuisine then cuisine else None),
            cs_type = (if truthy_str dish_type then dish_type else None),
            minIngredients = (if low then Some 1 else None),
            maxIngredients = (if low then Some 5 else None)\<rparr> = Inr results"
  shows "\<exists>out w'. get_recipes to_int api_key api ingredients max_time cuisine num search_type dish_type low w =
           (Inr out, w')"
  using assms unfolding get_recipes_def get_complexSearch_def
  by (simp split: prod.splits)


lemma fallback_egg:
  "get_fallback_recipes (Some ''key'') api_egg_rice ''egg'' 30 [] =
     ([], [FindByIngredients ''egg'', Information 2, Information 1])"
  by (simp add: get_fallback_recipes_def truthy_str_def il_egg api_egg_rice_sel agg_empty_def
      get_findByIngredients_def Let_def sort_by_match_count_def match_count_of_def py_take_def
      fallback_body_def get_information_def)


lemma handed_egg_rice:
  "[recipe_A, recipe_B] =
   py_take 30 (sort_by_match_count
     (ingredient_match_count \<lparr>all_recipes = [(2, recipe_B), (1, recipe_A)],
                              ingredient_match_count = [2 \<mapsto> 1, 1 \<mapsto> 2]\<rparr>)
     (map snd (all_recipes \<lparr>all_recipes = [(2, recipe_B), (1, recipe_A)],
                            ingredient_match_count = [2 \<mapsto> 1, 1 \<mapsto> 2]\<rparr>)))"
  by (simp add: sort_by_match_count_def match_count_of_def py_take_def)


end
